theory Spec2Isabelle
  imports Main "HOL-Library.Char_ord" "HOL-Library.List_Lexorder" "HOL-Library.Sublist"
    "HOL-Library.Multiset"
begin

section \<open>Go strings and the standard-library functions the code calls\<close>

text \<open>
  A Go string is a sequence of bytes, so it is a \<^typ>\<open>string\<close> here (a list of 8-bit
  characters); non-ASCII text is its UTF-8 encoding. The functions of the Go standard
  library that the repository calls are written out on bytes.
\<close>

text \<open>\<^verbatim>\<open>strings.Join(elems, sep)\<close>.\<close>

fun Join :: "string list \<Rightarrow> string \<Rightarrow> string" where
  "Join [] sep = []"
| "Join [x] sep = x"
| "Join (x # y # ys) sep = x @ sep @ Join (y # ys) sep"

text \<open>
  \<^verbatim>\<open>strings.Split(s, sep)\<close> for a separator of one byte (the code splits at the newline
  only): the pieces between the separators, at least one piece, empty pieces kept.
\<close>

fun Split_from :: "string \<Rightarrow> char \<Rightarrow> string \<Rightarrow> string list" where
  "Split_from [] sep piece = [rev piece]"
| "Split_from (x # xs) sep piece =
     (if x = sep then rev piece # Split_from xs sep [] else Split_from xs sep (x # piece))"

definition Split :: "string \<Rightarrow> char \<Rightarrow> string list" where
  "Split s sep = Split_from s sep []"

text \<open>
  \<^verbatim>\<open>strings.TrimSpace\<close> removes the leading and trailing runes that \<^verbatim>\<open>unicode.IsSpace\<close>
  accepts: tab, newline, vertical tab, form feed, carriage return, space, U+0085, U+00A0,
  U+1680, U+2000 to U+200A, U+2028, U+2029, U+202F, U+205F and U+3000, here as their
  UTF-8 encodings.
\<close>

definition space_encodings :: "string list" where
  "space_encodings =
     [[CHR 0x09], [CHR 0x0A], [CHR 0x0B], [CHR 0x0C], [CHR 0x0D], [CHR 0x20],
      [CHR 0xC2, CHR 0x85], [CHR 0xC2, CHR 0xA0],
      [CHR 0xE1, CHR 0x9A, CHR 0x80],
      [CHR 0xE2, CHR 0x80, CHR 0x80], [CHR 0xE2, CHR 0x80, CHR 0x81],
      [CHR 0xE2, CHR 0x80, CHR 0x82], [CHR 0xE2, CHR 0x80, CHR 0x83],
      [CHR 0xE2, CHR 0x80, CHR 0x84], [CHR 0xE2, CHR 0x80, CHR 0x85],
      [CHR 0xE2, CHR 0x80, CHR 0x86], [CHR 0xE2, CHR 0x80, CHR 0x87],
      [CHR 0xE2, CHR 0x80, CHR 0x88], [CHR 0xE2, CHR 0x80, CHR 0x89],
      [CHR 0xE2, CHR 0x80, CHR 0x8A],
      [CHR 0xE2, CHR 0x80, CHR 0xA8], [CHR 0xE2, CHR 0x80, CHR 0xA9],
      [CHR 0xE2, CHR 0x80, CHR 0xAF],
      [CHR 0xE2, CHR 0x81, CHR 0x9F],
      [CHR 0xE3, CHR 0x80, CHR 0x80]]"

text \<open>The number of bytes of the space rune at the front of \<open>s\<close>; 0 when there is none.\<close>

definition leading_space :: "string list \<Rightarrow> string \<Rightarrow> nat" where
  "leading_space encs s =
     (case find (\<lambda>e. e \<noteq> [] \<and> prefix e s) encs of None \<Rightarrow> 0 | Some e \<Rightarrow> length e)"

lemma leading_space_le: "leading_space encs s \<le> length s"
  by (auto simp: leading_space_def find_Some_iff prefix_def split: option.splits)

function TrimLeftSpace :: "string list \<Rightarrow> string \<Rightarrow> string" where
  "TrimLeftSpace encs s =
     (if leading_space encs s = 0 then s
      else TrimLeftSpace encs (drop (leading_space encs s) s))"
  by pat_completeness auto
termination
proof (relation "measure (\<lambda>(encs, s). length s)")
  show "wf (measure (\<lambda>(encs, s). length s))" by simp
next
  fix encs :: "string list" and s :: string
  assume "leading_space encs s \<noteq> 0"
  moreover have "leading_space encs s \<le> length s" by (rule leading_space_le)
  ultimately show "((encs, drop (leading_space encs s) s), (encs, s))
      \<in> measure (\<lambda>(encs, s). length s)"
    by simp
qed

declare TrimLeftSpace.simps [simp del]

definition TrimSpace :: "string \<Rightarrow> string" where
  "TrimSpace s =
     rev (TrimLeftSpace (map rev space_encodings) (rev (TrimLeftSpace space_encodings s)))"

text \<open>
  Case mapping. \<^verbatim>\<open>strings.ToLower\<close>, \<^verbatim>\<open>strings.ToUpper\<close> and \<^verbatim>\<open>strings.EqualFold\<close> work
  on runes. An ASCII letter changes case; the runes outside ASCII that Unicode maps to an
  ASCII letter are replaced by it (lower case: U+0130 to \<open>i\<close>, U+212A to \<open>k\<close>; upper
  case: U+0131 to \<open>I\<close>, U+017F to \<open>S\<close>; folding: U+212A with \<open>k\<close>, U+017F with \<open>s\<close>).
  Every other byte is kept as it is: Go maps other letters outside ASCII to letters outside
  ASCII, which the comparisons and patterns of the code (all ASCII) tell apart from ASCII
  text just the same. So the mapped text is Go's whenever it is ASCII, and it is used for
  nothing else: a stage name is returned only when it matches an ASCII pattern, and the
  error for an unknown \<^verbatim>\<open>HEALTHCHECK\<close> type, whose message quotes the upper-case
  text, is kept without that text.
\<close>

definition ascii_lower :: "char \<Rightarrow> char" where
  "ascii_lower c = (if CHR ''A'' \<le> c \<and> c \<le> CHR ''Z'' then char_of (of_char c + (32::nat)) else c)"

definition ascii_upper :: "char \<Rightarrow> char" where
  "ascii_upper c = (if CHR ''a'' \<le> c \<and> c \<le> CHR ''z'' then char_of (of_char c - (32::nat)) else c)"

text \<open>
  \<open>map_runes table f skip s\<close>: an encoding of \<open>table\<close> at the front of the text is
  replaced by its byte (the rest of the encoding is skipped), any other byte \<open>x\<close> by
  \<open>f x\<close>.
\<close>

fun map_runes :: "(string \<times> char) list \<Rightarrow> (char \<Rightarrow> char) \<Rightarrow> nat \<Rightarrow> string \<Rightarrow> string" where
  "map_runes table f skip [] = []"
| "map_runes table f (Suc skip) (x # xs) = map_runes table f skip xs"
| "map_runes table f 0 (x # xs) =
     (case find (\<lambda>(e, r). prefix e (x # xs)) table of
        Some (e, r) \<Rightarrow> r # map_runes table f (length e - 1) xs
      | None \<Rightarrow> f x # map_runes table f 0 xs)"

definition ToLower :: "string \<Rightarrow> string" where
  "ToLower s = map_runes
     [([CHR 0xC4, CHR 0xB0], CHR ''i''), ([CHR 0xE2, CHR 0x84, CHR 0xAA], CHR ''k'')]
     ascii_lower 0 s"

definition ToUpper :: "string \<Rightarrow> string" where
  "ToUpper s = map_runes
     [([CHR 0xC4, CHR 0xB1], CHR ''I''), ([CHR 0xC5, CHR 0xBF], CHR ''S'')]
     ascii_upper 0 s"

definition SimpleFold :: "string \<Rightarrow> string" where
  "SimpleFold s = map_runes
     [([CHR 0xE2, CHR 0x84, CHR 0xAA], CHR ''k''), ([CHR 0xC5, CHR 0xBF], CHR ''s'')]
     ascii_lower 0 s"

definition EqualFold :: "string \<Rightarrow> string \<Rightarrow> bool" where
  "EqualFold s t = (SimpleFold s = SimpleFold t)"

text \<open>
  \<^verbatim>\<open>slices.Sort\<close> on strings: ascending in Go's string order, which compares byte by
  byte and puts a proper prefix first; that is the order of \<^typ>\<open>string\<close> here. The result
  of sorting under a linear order does not depend on the algorithm.
\<close>

definition slices_Sort :: "string list \<Rightarrow> string list" where
  "slices_Sort xs = sort xs"

text \<open>
  The errors of the modelled functions, one constructor for each place that makes one;
  \<open>ExternalError\<close> is an error of the build engine.
\<close>

datatype error =
    NumError string string
  | CouldNotParseAptLine string
  | InvalidDuration string
  | IntervalTooShort string
  | RetriesNegative int
  | FlagError string
  | NoDestinationArgument string
  | AtLeastOneArgument string
  | BadHeredoc string string
  | InvalidStageName string
  | FromArgumentCount
  | HealthcheckNoneArgs
  | HealthcheckMissingCommand
  | HealthcheckUnknownType
  | MarshalError error
  | ExternalError string
  | Panic string

text \<open>
  \<^verbatim>\<open>strconv.ParseInt(s, 10, bitSize)\<close>: an optional sign, then one or more decimal digits;
  the value must fit a signed integer of \<open>bitSize\<close> bits. Both failures (\<^verbatim>\<open>ErrSyntax\<close>,
  \<^verbatim>\<open>ErrRange\<close>) are a \<^verbatim>\<open>*strconv.NumError\<close>. \<^verbatim>\<open>strconv.Atoi\<close> is the same at the size
  of \<^verbatim>\<open>int\<close>, 64 bits on the platforms the frontend is released for (linux/amd64 and
  linux/arm64).
\<close>

definition is_digit :: "char \<Rightarrow> bool" where
  "is_digit c = (CHR ''0'' \<le> c \<and> c \<le> CHR ''9'')"

definition digit_val :: "char \<Rightarrow> int" where
  "digit_val c = int (of_char c) - 48"

fun decimal :: "int \<Rightarrow> string \<Rightarrow> int" where
  "decimal n [] = n"
| "decimal n (c # cs) = decimal (n * 10 + digit_val c) cs"

definition ParseInt10 :: "string \<Rightarrow> string \<Rightarrow> nat \<Rightarrow> error + int" where
  "ParseInt10 fn s bitSize =
     (let neg = (s \<noteq> [] \<and> hd s = CHR ''-'');
          ds = (if s \<noteq> [] \<and> (hd s = CHR ''+'' \<or> hd s = CHR ''-'') then tl s else s);
          v = (if neg then - decimal 0 ds else decimal 0 ds)
      in if ds = [] \<or> \<not> list_all is_digit ds then Inl (NumError fn s)
         else if v < - (2 ^ (bitSize - 1)) \<or> 2 ^ (bitSize - 1) - 1 < v then Inl (NumError fn s)
         else Inr v)"

definition Atoi :: "string \<Rightarrow> error + int" where
  "Atoi s = ParseInt10 ''Atoi'' s 64"

section \<open>Regular expressions\<close>

text \<open>
  The patterns \<^verbatim>\<open>aptRegex\<close> and \<^verbatim>\<open>validStageName\<close> are compiled by
  \<^verbatim>\<open>regexp.MustCompile\<close>. Go's matcher
  returns the leftmost match and, among the matches that start there, the one a
  backtracking search finds first (greedy operators try the longer alternative first).
  \<open>rmatch\<close> lists the ways a pattern matches at the front of the input in that order;
  each result holds the capture groups and the rest of the input. The classes of both
  patterns are ASCII or negated ASCII, so matching byte by byte consumes the same bytes as
  Go's matching rune by rune.
\<close>

datatype charclass = CC bool "(char \<times> char) list"

fun in_class :: "charclass \<Rightarrow> char \<Rightarrow> bool" where
  "in_class (CC negated ranges) c =
     (negated \<noteq> list_ex (\<lambda>(lo, hi). lo \<le> c \<and> c \<le> hi) ranges)"

datatype regex =
    BeginText
  | EndText
  | Lit string
  | OneOf charclass
  | Star charclass
  | Plus charclass
  | Opt regex
  | Group nat regex
  | Concat regex regex

text \<open>A sequence of patterns, one after the other.\<close>

fun Seq :: "regex list \<Rightarrow> regex" where
  "Seq [] = Lit []"
| "Seq [r] = r"
| "Seq (r # r' # rs) = Concat r (Seq (r' # rs))"

type_synonym captures = "nat \<Rightarrow> string option"

fun rmatch :: "regex \<Rightarrow> bool \<Rightarrow> string \<Rightarrow> captures \<Rightarrow> (captures \<times> string) list" where
  "rmatch BeginText at_start s c = (if at_start then [(c, s)] else [])"
| "rmatch EndText at_start s c = (if s = [] then [(c, s)] else [])"
| "rmatch (Lit l) at_start s c = (if prefix l s then [(c, drop (length l) s)] else [])"
| "rmatch (OneOf k) at_start s c =
     (case s of [] \<Rightarrow> [] | x # xs \<Rightarrow> if in_class k x then [(c, xs)] else [])"
| "rmatch (Star k) at_start s c =
     map (\<lambda>n. (c, drop n s)) (rev [0 ..< Suc (length (takeWhile (in_class k) s))])"
| "rmatch (Plus k) at_start s c =
     map (\<lambda>n. (c, drop n s)) (rev [1 ..< Suc (length (takeWhile (in_class k) s))])"
| "rmatch (Opt r) at_start s c = rmatch r at_start s c @ [(c, s)]"
| "rmatch (Group n r) at_start s c =
     map (\<lambda>(c', s'). (c'(n \<mapsto> take (length s - length s') s), s')) (rmatch r at_start s c)"
| "rmatch (Concat r1 r2) at_start s c =
     concat (map (\<lambda>(c', s'). rmatch r2 (at_start \<and> length s' = length s) s' c')
       (rmatch r1 at_start s c))"

record Regexp =
  expr :: regex
  NumSubexp :: nat

text \<open>The leftmost match: the first start position at which the pattern matches.\<close>

fun find_leftmost :: "regex \<Rightarrow> bool \<Rightarrow> string \<Rightarrow> (string \<times> captures) option" where
  "find_leftmost r at_start s =
     (case rmatch r at_start s (\<lambda>n. None) of
        (c, s') # _ \<Rightarrow> Some (take (length s - length s') s, c)
      | [] \<Rightarrow> (case s of [] \<Rightarrow> None | x # xs \<Rightarrow> find_leftmost r False xs))"

declare find_leftmost.simps [simp del]

text \<open>
  \<^verbatim>\<open>FindStringSubmatch\<close>: \<open>None\<close> is Go's nil; otherwise the matched text and the text of
  every group, the empty string for a group that took no part in the match.
\<close>

definition FindStringSubmatch :: "Regexp \<Rightarrow> string \<Rightarrow> string list option" where
  "FindStringSubmatch re s =
     (case find_leftmost (expr re) True s of
        None \<Rightarrow> None
      | Some (whole, c) \<Rightarrow>
          Some (whole # map (\<lambda>n. case c n of None \<Rightarrow> [] | Some g \<Rightarrow> g) [1 ..< Suc (NumSubexp re)]))"

definition MatchString :: "Regexp \<Rightarrow> string \<Rightarrow> bool" where
  "MatchString re s = (find_leftmost (expr re) True s \<noteq> None)"

section \<open>The instruction model: instructions/parse.go\<close>

text \<open>
  The flag set of a parse request (\<^verbatim>\<open>BFlags\<close>, bflag.go) is not among the sources. A
  flag set is taken as what its \<^verbatim>\<open>Parse\<close> does: from the flags the instruction has
  registered (name, kind and default value) to an error, or to the flags as \<^verbatim>\<open>Parse\<close>
  leaves them and the names that were used. The theorems hold for every flag set.
\<close>

datatype FlagType = boolType | stringType | stringsType

record Flag =
  flagName :: string
  flagType :: FlagType
  Value :: string
  StringValues :: "string list"

record ParsedFlags =
  flag :: "string \<Rightarrow> Flag"
  used :: "string \<Rightarrow> bool"

type_synonym BFlags = "Flag list \<Rightarrow> error + ParsedFlags"

definition AddBool :: "string \<Rightarrow> bool \<Rightarrow> Flag" where
  "AddBool n def = \<lparr>flagName = n, flagType = boolType,
     Value = (if def then ''true'' else ''false''), StringValues = []\<rparr>"

definition AddString :: "string \<Rightarrow> string \<Rightarrow> Flag" where
  "AddString n def = \<lparr>flagName = n, flagType = stringType, Value = def, StringValues = []\<rparr>"

definition AddStrings :: "string \<Rightarrow> Flag" where
  "AddStrings n = \<lparr>flagName = n, flagType = stringsType, Value = [], StringValues = []\<rparr>"

text \<open>\<^verbatim>\<open>parser.Heredoc\<close> and \<^verbatim>\<open>parser.Range\<close> of the Dockerfile parser.\<close>

record Heredoc =
  Name :: string
  Expand :: bool
  Chomp :: bool
  Content :: string

type_synonym Range = "(nat \<times> nat) \<times> (nat \<times> nat)"

record parseRequest =
  command :: string
  args :: "string list"
  heredocs :: "Heredoc list"
  attributes :: "string \<Rightarrow> bool"
  flags :: BFlags
  original :: string
  location :: "Range list"
  comments :: "string list"

text \<open>
  What the functions of parse.go call outside the sources: \<^verbatim>\<open>parser.MustParseHeredoc\<close>
  and \<^verbatim>\<open>parser.ChompHeredocContent\<close> of the Dockerfile parser, \<^verbatim>\<open>time.ParseDuration\<close>
  (a duration is a number of nanoseconds), \<^verbatim>\<open>handleJSONArgs\<close> of the instructions
  package, and the switch of the package that enables \<^verbatim>\<open>--exclude\<close>. They are
  parameters.
\<close>

record externals =
  MustParseHeredoc :: "string \<Rightarrow> Heredoc option"
  ChompHeredocContent :: "string \<Rightarrow> string"
  ParseDuration :: "string \<Rightarrow> error + int"
  handleJSONArgs :: "string list \<Rightarrow> (string \<Rightarrow> bool) \<Rightarrow> string list"
  excludePatternsEnabled :: bool

text \<open>
  Modelled from the spec: \<^verbatim>\<open>newWithNameAndCode\<close> (commands.go is not among the sources).
  Every instruction carries its original source text and its source range; the command
  name comes with them.
\<close>

record withNameAndCode =
  code :: string
  cmdName :: string
  cmdLocation :: "Range list"

definition newWithNameAndCode :: "parseRequest \<Rightarrow> withNameAndCode" where
  "newWithNameAndCode req =
     \<lparr>code = original req, cmdName = command req, cmdLocation = location req\<rparr>"

record SourceContent =
  Path :: string
  Data :: string
  ExpandContent :: bool

record SourcesAndDest =
  DestPath :: string
  SourcePaths :: "string list"
  SourceContents :: "SourceContent list"

record PackageCommand = withNameAndCode +
  PackageNames :: "string list"

record AddCommand = withNameAndCode +
  SourcesAndDest :: SourcesAndDest
  Chown :: string
  Chmod :: string
  Link :: bool
  KeepGitDir :: bool
  ChecksumFlag :: string
  ExcludePatterns :: "string list"
  Unpack :: "bool option"

text \<open>\<^verbatim>\<open>parseAdd\<close> returns either of two instructions.\<close>

datatype AddInstruction = Package PackageCommand | Add AddCommand

text \<open>The heredoc of a given name: the last one with that name (the lookup map is filled in order).\<close>

definition heredocLookup :: "Heredoc list \<Rightarrow> string \<Rightarrow> Heredoc option" where
  "heredocLookup hs n = find (\<lambda>h. Name h = n) (rev hs)"

fun sources_loop ::
  "externals \<Rightarrow> Heredoc list \<Rightarrow> string list \<Rightarrow> string list \<times> SourceContent list
     \<Rightarrow> string list \<times> SourceContent list" where
  "sources_loop ext hs [] acc = acc"
| "sources_loop ext hs (src # srcs) (sourcePaths, sourceContents) =
     (case MustParseHeredoc ext src of
        Some heredoc \<Rightarrow>
          (let content = (case heredocLookup hs (Name heredoc) of
                            None \<Rightarrow> [] | Some h \<Rightarrow> Content h);
               content = (if Chomp heredoc then ChompHeredocContent ext content else content)
           in sources_loop ext hs srcs
                (sourcePaths,
                 sourceContents @
                   [\<lparr>Path = Name heredoc, Data = content, ExpandContent = Expand heredoc\<rparr>]))
      | None \<Rightarrow> sources_loop ext hs srcs (sourcePaths @ [src], sourceContents))"

text \<open>
  \<^verbatim>\<open>parseSourcesAndDest\<close> slices its arguments without a check of its own: without
  arguments the index is out of range and Go panics. \<open>parseAdd\<close> calls it with two
  arguments or more.
\<close>

definition parseSourcesAndDest :: "externals \<Rightarrow> parseRequest \<Rightarrow> string \<Rightarrow> error + SourcesAndDest" where
  "parseSourcesAndDest ext req cmd =
     (if args req = [] then Inl (Panic ''slice bounds out of range'')
      else
      let srcs = butlast (args req);
          dest = last (args req)
      in case MustParseHeredoc ext dest of
           Some heredoc \<Rightarrow> Inl (BadHeredoc cmd ''a destination'')
         | None \<Rightarrow>
             (case sources_loop ext (heredocs req) srcs ([], []) of
                (sourcePaths, sourceContents) \<Rightarrow>
                  Inr \<lparr>DestPath = dest, SourcePaths = sourcePaths,
                       SourceContents = sourceContents\<rparr>))"

definition stringValuesFromFlagIfPossible :: "Flag option \<Rightarrow> string list" where
  "stringValuesFromFlagIfPossible f = (case f of None \<Rightarrow> [] | Some f \<Rightarrow> StringValues f)"

text \<open>The flags \<^verbatim>\<open>parseAdd\<close> registers before it calls \<^verbatim>\<open>Parse\<close>, in its order.\<close>

definition parseAdd_flags :: "externals \<Rightarrow> Flag list" where
  "parseAdd_flags ext =
     (if excludePatternsEnabled ext then [AddStrings ''exclude''] else []) @
     [AddString ''chown'' [], AddString ''chmod'' [], AddBool ''link'' False,
      AddBool ''keep-git-dir'' False, AddString ''checksum'' [],
      AddBool ''unpack'' False, AddBool ''apt'' False]"

definition parseAdd :: "externals \<Rightarrow> parseRequest \<Rightarrow> error + AddInstruction" where
  "parseAdd ext req =
     (let registered = parseAdd_flags ext
      in case flags req registered of
           Inl err \<Rightarrow> Inl err
         | Inr fl \<Rightarrow>
             if Value (flag fl ''apt'') = ''true'' then
               Inr (Package (withNameAndCode.extend (newWithNameAndCode req)
                      \<lparr>PackageNames = args req\<rparr>))
             else if length (args req) < 2 then Inl (NoDestinationArgument ''ADD'')
             else (case parseSourcesAndDest ext req ''ADD'' of
                     Inl err \<Rightarrow> Inl err
                   | Inr sourcesAndDest \<Rightarrow>
                       Inr (Add (withNameAndCode.extend (newWithNameAndCode req)
                         \<lparr>SourcesAndDest = sourcesAndDest,
                          Chown = Value (flag fl ''chown''),
                          Chmod = Value (flag fl ''chmod''),
                          Link = (Value (flag fl ''link'') = ''true''),
                          KeepGitDir = (Value (flag fl ''keep-git-dir'') = ''true''),
                          ChecksumFlag = Value (flag fl ''checksum''),
                          ExcludePatterns = stringValuesFromFlagIfPossible
                            (if excludePatternsEnabled ext then Some (flag fl ''exclude'')
                             else None),
                          Unpack = (if used fl ''unpack''
                                    then Some (Value (flag fl ''unpack'') = ''true'')
                                    else None)\<rparr>))))"

text \<open>\<^verbatim>\<open>^[a-z][a-z0-9-_.]*$\<close>\<close>

definition validStageName :: Regexp where
  "validStageName = \<lparr>expr = Seq
     [BeginText,
      OneOf (CC False [(CHR ''a'', CHR ''z'')]),
      Star (CC False [(CHR ''a'', CHR ''z''), (CHR ''0'', CHR ''9''), (CHR ''-'', CHR ''-''),
                      (CHR ''_'', CHR ''_''), (CHR ''.'', CHR ''.'')]),
      EndText],
     NumSubexp = 0\<rparr>"

definition parseBuildStageName :: "string list \<Rightarrow> error + string" where
  "parseBuildStageName as =
     (if length as = 3 \<and> EqualFold (as ! 1) ''as'' then
        (let stageName = ToLower (as ! 2)
         in if \<not> MatchString validStageName stageName then Inl (InvalidStageName (as ! 2))
            else Inr stageName)
      else if length as \<noteq> 1 then Inl FromArgumentCount
      else Inr [])"

definition minimumDuration :: int where
  "minimumDuration = 1000000"

definition parseOptInterval :: "externals \<Rightarrow> Flag \<Rightarrow> error + int" where
  "parseOptInterval ext f =
     (let s = Value f
      in if s = [] then Inr 0
         else (case ParseDuration ext s of
                 Inl err \<Rightarrow> Inl err
               | Inr d \<Rightarrow>
                   if d = 0 then Inr 0
                   else if d < minimumDuration then Inl (IntervalTooShort (flagName f))
                   else Inr d))"

record HealthcheckConfig =
  Test :: "string list"
  Interval :: int
  Timeout :: int
  StartPeriod :: int
  StartInterval :: int
  Retries :: int

record HealthCheckCommand = withNameAndCode +
  Health :: HealthcheckConfig

text \<open>The flags \<^verbatim>\<open>parseHealthcheck\<close> registers when the type is not \<^verbatim>\<open>NONE\<close>.\<close>

definition parseHealthcheck_flags :: "Flag list" where
  "parseHealthcheck_flags =
     [AddString ''interval'' [], AddString ''timeout'' [], AddString ''start-period'' [],
      AddString ''start-interval'' [], AddString ''retries'' []]"

definition parseHealthcheck :: "externals \<Rightarrow> parseRequest \<Rightarrow> error + HealthCheckCommand" where
  "parseHealthcheck ext req =
     (if length (args req) = 0 then Inl (AtLeastOneArgument ''HEALTHCHECK'')
      else
        (let typ = ToUpper (args req ! 0);
             rest = tl (args req)
         in if typ = ''NONE'' then
              (if length rest \<noteq> 0 then Inl HealthcheckNoneArgs
               else Inr (withNameAndCode.extend (newWithNameAndCode req)
                      \<lparr>Health = \<lparr>Test = [typ], Interval = 0, Timeout = 0, StartPeriod = 0,
                                 StartInterval = 0, Retries = 0\<rparr>\<rparr>))
            else
              (case flags req parseHealthcheck_flags of
                 Inl err \<Rightarrow> Inl err
               | Inr fl \<Rightarrow>
                   if typ \<noteq> ''CMD'' then Inl HealthcheckUnknownType
                   else
                     (let cmdSlice = handleJSONArgs ext rest (attributes req)
                      in if length cmdSlice = 0 then Inl HealthcheckMissingCommand
                         else
                           (let typ = (if \<not> attributes req ''json'' then ''CMD-SHELL'' else typ);
                                test = typ # cmdSlice
                            in case parseOptInterval ext (flag fl ''interval'') of
                                 Inl err \<Rightarrow> Inl err
                               | Inr interval \<Rightarrow>
                            (case parseOptInterval ext (flag fl ''timeout'') of
                                 Inl err \<Rightarrow> Inl err
                               | Inr timeout \<Rightarrow>
                            (case parseOptInterval ext (flag fl ''start-period'') of
                                 Inl err \<Rightarrow> Inl err
                               | Inr startPeriod \<Rightarrow>
                            (case parseOptInterval ext (flag fl ''start-interval'') of
                                 Inl err \<Rightarrow> Inl err
                               | Inr startInterval \<Rightarrow>
                            (case (if Value (flag fl ''retries'') \<noteq> []
                                   then (case ParseInt10 ''ParseInt'' (Value (flag fl ''retries'')) 32 of
                                           Inl err \<Rightarrow> Inl err
                                         | Inr retries \<Rightarrow>
                                             if retries < 0 then Inl (RetriesNegative retries)
                                             else Inr retries)
                                   else Inr 0) of
                                 Inl err \<Rightarrow> Inl err
                               | Inr retries \<Rightarrow>
                                   Inr (withNameAndCode.extend (newWithNameAndCode req)
                                     \<lparr>Health = \<lparr>Test = test, Interval = interval,
                                        Timeout = timeout, StartPeriod = startPeriod,
                                        StartInterval = startInterval,
                                        Retries = retries\<rparr>\<rparr>))))))))))"

record ExposeCommand = withNameAndCode +
  Ports :: "string list"

definition parseExpose :: "parseRequest \<Rightarrow> error + ExposeCommand" where
  "parseExpose req =
     (let portsTab = args req
      in if length (args req) = 0 then Inl (AtLeastOneArgument ''EXPOSE'')
         else (case flags req [] of
                 Inl err \<Rightarrow> Inl err
               | Inr fl \<Rightarrow>
                   Inr (withNameAndCode.extend (newWithNameAndCode req)
                     \<lparr>Ports = slices_Sort portsTab\<rparr>)))"

section \<open>The package extension: convert\_package.go\<close>

definition aptions :: string where
  "aptions = Join
     [''--option Acquire::ForceHash=sha256'',
      ''--option Acquire::GzipIndexes=false'',
      ''--option Dir::Cache=/btidor.syntax/cache'',
      ''--option Dir::Cache::archives=archives/'',
      ''--option Dir::State=/btidor.syntax/state'',
      ''--option Dir::State::lists=lists/'',
      ''--yes'', ''--quiet''] '' ''"

text \<open>Go's \<^verbatim>\<open>\s\<close> is the class of tab, newline, form feed, carriage return and space.\<close>

definition cls_space :: charclass where
  "cls_space = CC False [(CHR 0x09, CHR 0x0A), (CHR 0x0C, CHR 0x0D), (CHR '' '', CHR '' '')]"

definition cls_digit :: charclass where
  "cls_digit = CC False [(CHR ''0'', CHR ''9'')]"

definition cls_hex :: charclass where
  "cls_hex = CC False [(CHR ''0'', CHR ''9''), (CHR ''a'', CHR ''f''), (CHR ''A'', CHR ''F'')]"

text \<open>
  \<^verbatim>\<open>^'([^']*)'\s+([^ ]+)\s+([0-9]+)(\s+SHA256:([0-9a-fA-F]+))?\<close>
\<close>

definition aptRegex :: Regexp where
  "aptRegex = \<lparr>expr = Seq
     [BeginText,
      Lit [CHR 0x27],
      Group 1 (Star (CC True [(CHR 0x27, CHR 0x27)])),
      Lit [CHR 0x27],
      Plus cls_space,
      Group 2 (Plus (CC True [(CHR '' '', CHR '' '')])),
      Plus cls_space,
      Group 3 (Plus cls_digit),
      Opt (Group 4 (Seq [Plus cls_space, Lit ''SHA256:'', Group 5 (Plus cls_hex)]))],
     NumSubexp = 5\<rparr>"

text \<open>
  The build graph of \<^verbatim>\<open>llb\<close> (BuildKit's client library), as far as the extension
  builds it. A state is a node of the graph: an opaque state (the root of a stage, an
  image), an HTTP source, the root of an exec over a state with its options, or a file
  operation over a state. \<^verbatim>\<open>dfCmd\<close> and \<^verbatim>\<open>location\<close> (convert.go, not among the
  sources) make options that carry the instruction and its source range; they are kept
  as such.
\<close>

datatype CacheMountSharingMode = CacheMountShared | CacheMountPrivate | CacheMountLocked

datatype MountOption = SourcePath string | AsPersistentCacheDir string CacheMountSharingMode

datatype HTTPOption = Filename string | Checksum string

record CopyInfo =
  Mode :: "nat option"
  CreateDestPath :: bool

datatype State =
    OpaqueState string
  | HTTP string "HTTPOption list"
  | StateRun State "LLBOption list"
  | StateFile State "FileAction option" "LLBOption list"
and LLBOption =
    AddEnv string string
  | dfCmd PackageCommand
  | locationOpt string "Range list"
  | WithCustomName string
  | Args "string list"
  | IgnoreCache
  | AddMount string State "MountOption list"
  | FollowPaths "string list"
and FileAction =
    FileActionCopy "FileAction option" State string string CopyInfo

text \<open>
  \<^verbatim>\<open>llb.Copy(input, src, dest, opt)\<close> starts a chain of copies and
  \<^verbatim>\<open>action.Copy(input, src, dest, opt)\<close> adds one to the chain \<open>action\<close>.
\<close>

definition llb_Copy :: "State \<Rightarrow> string \<Rightarrow> string \<Rightarrow> CopyInfo \<Rightarrow> FileAction" where
  "llb_Copy input src dest opt = FileActionCopy None input src dest opt"

definition action_Copy :: "FileAction \<Rightarrow> State \<Rightarrow> string \<Rightarrow> string \<Rightarrow> CopyInfo \<Rightarrow> FileAction" where
  "action_Copy action input src dest opt = FileActionCopy (Some action) input src dest opt"

text \<open>\<^verbatim>\<open>digest.NewDigestFromEncoded(alg, encoded)\<close> of go-digest: \<^verbatim>\<open>alg:encoded\<close>.\<close>

definition SHA256 :: string where
  "SHA256 = ''sha256''"

definition NewDigestFromEncoded :: "string \<Rightarrow> string \<Rightarrow> string" where
  "NewDigestFromEncoded alg encoded = alg @ '':'' @ encoded"

text \<open>The image under construction: its shell and its history.\<close>

record History =
  CreatedBy :: string
  EmptyLayer :: bool
  Created :: "nat option"

record Image =
  Shell :: "string list"
  ImageHistory :: "History list"

text \<open>
  Modelled from the spec: \<^verbatim>\<open>commitToHistory\<close> (convert.go is not among the sources).
  Every instruction appends a history entry with its created-by string, its empty-layer
  flag and the epoch timestamp.
\<close>

definition commitToHistory ::
  "Image \<Rightarrow> string \<Rightarrow> bool \<Rightarrow> State option \<Rightarrow> nat option \<Rightarrow> error + Image" where
  "commitToHistory img msg withLayer st tm =
     Inr (img\<lparr>ImageHistory := ImageHistory img @
            [\<lparr>CreatedBy = msg, EmptyLayer = (\<not> withLayer), Created = tm\<rparr>]\<rparr>)"

record dispatchState =
  state :: State
  image :: Image
  ignoreCache :: bool
  epoch :: "nat option"
  ctxPaths :: "string list"

text \<open>
  The options of a dispatch. The Docker client and the gateway client are what the
  build engine gives the compiler: the main build context, the marshalling of a state
  (with the target platform as its default) into a definition, the solving of a
  definition into a result, the single reference of a result and the reading of a file
  from a reference. Definitions are byte strings; results and references are handles.
\<close>

record dispatchOpt =
  sourceMap :: string
  targetPlatform :: string
  rawBuildContext :: "State option"
  CacheImports :: "string list"
  MainContext :: "LLBOption list \<Rightarrow> error + State"
  Marshal :: "State \<Rightarrow> string \<Rightarrow> error + string"
  Solve :: "string \<Rightarrow> string list \<Rightarrow> error + nat"
  SingleRef :: "nat \<Rightarrow> error + nat"
  RefReadFile :: "nat \<Rightarrow> string \<Rightarrow> error + string"

text \<open>
  \<^verbatim>\<open>withShell\<close> and \<^verbatim>\<open>normalizeContextPaths\<close> of convert.go are not among the
  sources; they are parameters.
\<close>

record helpers =
  withShell :: "Image \<Rightarrow> string list \<Rightarrow> string list"
  normalizeContextPaths :: "string list \<Rightarrow> string list option"

record PackageInvocation =
  d :: dispatchState
  cmd :: PackageCommand
  dopt :: dispatchOpt
  updateStage :: string
  downloadStage :: string
  installStage :: string

definition Run ::
  "helpers \<Rightarrow> PackageInvocation \<Rightarrow> State \<Rightarrow> string \<Rightarrow> bool \<Rightarrow> string list \<Rightarrow> LLBOption list
     \<Rightarrow> error + State \<times> PackageInvocation" where
  "Run h i st stageName withLayer script extra =
     (let opts = [AddEnv ''DEBIAN_FRONTEND'' ''noninteractive'',
                  dfCmd (cmd i),
                  locationOpt (sourceMap (dopt i)) (cmdLocation (cmd i)),
                  WithCustomName stageName,
                  Args (withShell h (image (d i)) [Join script '' && ''])];
          opts = (if ignoreCache (d i) then opts @ [IgnoreCache] else opts);
          opts = opts @ extra;
          next = StateRun st opts
      in case commitToHistory (image (d i)) stageName withLayer (Some next) (epoch (d i)) of
           Inl err \<Rightarrow> Inl err
         | Inr img \<Rightarrow> Inr (next, i\<lparr>d := (d i)\<lparr>image := img\<rparr>\<rparr>))"

definition ReadFile ::
  "helpers \<Rightarrow> PackageInvocation \<Rightarrow> State \<Rightarrow> string \<Rightarrow> error + string \<times> PackageInvocation" where
  "ReadFile h i st path =
     (let opts = (case normalizeContextPaths h (ctxPaths (d i)) of
                    None \<Rightarrow> []
                  | Some includePatterns \<Rightarrow> [FollowPaths includePatterns])
      in case MainContext (dopt i) opts of
           Inl err \<Rightarrow> Inl err
         | Inr bctx \<Rightarrow>
             (let i = i\<lparr>dopt := (dopt i)\<lparr>rawBuildContext := Some bctx\<rparr>\<rparr>
              in case Marshal (dopt i) st (targetPlatform (dopt i)) of
                   Inl err \<Rightarrow> Inl (MarshalError err)
                 | Inr def \<Rightarrow>
                     (case Solve (dopt i) def (CacheImports (dopt i)) of
                        Inl err \<Rightarrow> Inl err
                      | Inr res \<Rightarrow>
                          (case SingleRef (dopt i) res of
                             Inl err \<Rightarrow> Inl err
                           | Inr ref \<Rightarrow>
                               (case RefReadFile (dopt i) ref path of
                                  Inl err \<Rightarrow> Inl err
                                | Inr content \<Rightarrow> Inr (content, i))))))"

record PackageDownload =
  uri :: string
  filename :: string
  size :: int
  sha256 :: string

fun ParseURIs_lines :: "string list \<Rightarrow> PackageDownload list \<Rightarrow> error + PackageDownload list" where
  "ParseURIs_lines [] results = Inr results"
| "ParseURIs_lines (line # rest) results =
     (let line = TrimSpace line in
      if length line = 0 then ParseURIs_lines rest results
      else (case FindStringSubmatch aptRegex line of
              None \<Rightarrow> Inl (CouldNotParseAptLine line)
            | Some match \<Rightarrow>
                (case Atoi (match ! 3) of
                   Inl err \<Rightarrow> Inl err
                 | Inr sz \<Rightarrow>
                     let sha = (if length match > 5 then match ! 5 else [])
                     in ParseURIs_lines rest
                          (results @ [\<lparr>uri = match ! 1, filename = match ! 2,
                                       size = sz, sha256 = sha\<rparr>]))))"

definition ParseURIs :: "string \<Rightarrow> error + PackageDownload list" where
  "ParseURIs uris = ParseURIs_lines (Split uris CHR 0x0A) []"

fun DownloadFiles_loop ::
  "PackageDownload list \<Rightarrow> string \<Rightarrow> CopyInfo \<Rightarrow> FileAction option \<Rightarrow> FileAction option" where
  "DownloadFiles_loop [] destination copyOpt action = action"
| "DownloadFiles_loop (file # files) destination copyOpt action =
     (let httpOpts = [Filename (filename file)];
          httpOpts = (if sha256 file \<noteq> []
                      then httpOpts @ [Checksum (NewDigestFromEncoded SHA256 (sha256 file))]
                      else httpOpts);
          http = HTTP (uri file) httpOpts;
          action = (case action of
                      None \<Rightarrow> Some (llb_Copy http (filename file) destination copyOpt)
                    | Some a \<Rightarrow> Some (action_Copy a http (filename file) destination copyOpt))
      in DownloadFiles_loop files destination copyOpt action)"

text \<open>The file mode \<^verbatim>\<open>0644\<close> is 420.\<close>

definition DownloadFiles ::
  "PackageInvocation \<Rightarrow> State \<Rightarrow> PackageDownload list \<Rightarrow> string \<Rightarrow> error + State" where
  "DownloadFiles i base files destination =
     (let copyOpt = \<lparr>Mode = Some 420, CreateDestPath = True\<rparr>;
          action = DownloadFiles_loop files destination copyOpt None
      in Inr (StateFile base action
                [dfCmd (cmd i),
                 locationOpt (sourceMap (dopt i)) (cmdLocation (cmd i)),
                 WithCustomName ''COPY (apt packages)'']))"

text \<open>
  \<open>Dispatch\<close> returns the invocation as it leaves it: the history of the image grows
  with every exec, and the state of the stage becomes the install exec.
\<close>

definition Dispatch :: "helpers \<Rightarrow> PackageInvocation \<Rightarrow> error + PackageInvocation" where
  "Dispatch h i =
     (case Run h i (state (d i)) (updateStage i) False
             [''mkdir -p /btidor.syntax/state/lists/partial'',
              ''apt-get update '' @ aptions,
              ''cp -r /btidor.syntax/state /btidor.syntax/backup'']
             [AddMount ''/btidor.syntax/state'' (state (d i))
                [AsPersistentCacheDir ''btidor.syntax'' CacheMountShared]] of
        Inl err \<Rightarrow> Inl err
      | Inr (tmp, i) \<Rightarrow>
     (case Run h i tmp (downloadStage i) False
             [''mv /btidor.syntax/backup /btidor.syntax/state'',
              ''apt-get install -qq --print-uris '' @ aptions @ '' '' @
                Join (PackageNames (cmd i)) '' '' @ '' > /btidor.syntax/install'']
             [] of
        Inl err \<Rightarrow> Inl err
      | Inr (tmp, i) \<Rightarrow>
     (case ReadFile h i tmp ''/btidor.syntax/install'' of
        Inl err \<Rightarrow> Inl err
      | Inr (content, i) \<Rightarrow>
     (case ParseURIs content of
        Inl err \<Rightarrow> Inl err
      | Inr uris \<Rightarrow>
     (case DownloadFiles i tmp uris ''/btidor.syntax/cache/archives/'' of
        Inl err \<Rightarrow> Inl err
      | Inr tmp \<Rightarrow>
     (case Run h i (state (d i)) (installStage i) True
             [''apt-get install --no-download '' @ aptions @ '' '' @
                Join (PackageNames (cmd i)) '' '']
             [AddMount ''/btidor.syntax'' tmp [SourcePath ''/btidor.syntax'']] of
        Inl err \<Rightarrow> Inl err
      | Inr (next, i) \<Rightarrow> Inr (i\<lparr>d := (d i)\<lparr>state := next\<rparr>\<rparr>)))))))"

section \<open>Notions used in the properties\<close>

text \<open>
  The lines \<open>ParseURIs\<close> parses: the pieces of the listing between newlines, trimmed, the
  empty ones left out. \<open>line_record\<close> is what the loop body makes of one of them.
\<close>

definition apt_lines :: "string \<Rightarrow> string list" where
  "apt_lines uris = filter (\<lambda>l. l \<noteq> []) (map TrimSpace (Split uris CHR 0x0A))"

definition line_record :: "string \<Rightarrow> error + PackageDownload" where
  "line_record l =
     (case FindStringSubmatch aptRegex l of
        None \<Rightarrow> Inl (CouldNotParseAptLine l)
      | Some m \<Rightarrow>
          (case Atoi (m ! 3) of
             Inl err \<Rightarrow> Inl err
           | Inr n \<Rightarrow> Inr \<lparr>uri = m ! 1, filename = m ! 2, size = n, sha256 = m ! 5\<rparr>))"


text \<open>
  The pattern of a stage name as the specification writes it,
  \<^verbatim>\<open>^[a-z][a-z0-9._-]*$\<close>, read directly: a lower-case letter, then lower-case letters,
  digits, dots, underscores and hyphens.
\<close>

definition stage_name_pattern :: "string \<Rightarrow> bool" where
  "stage_name_pattern s =
     (case s of
        [] \<Rightarrow> False
      | c # cs \<Rightarrow>
          CHR ''a'' \<le> c \<and> c \<le> CHR ''z'' \<and>
          list_all (\<lambda>x. CHR ''a'' \<le> x \<and> x \<le> CHR ''z'' \<or> CHR ''0'' \<le> x \<and> x \<le> CHR ''9'' \<or>
                        x = CHR ''.'' \<or> x = CHR ''_'' \<or> x = CHR ''-'') cs)"

text \<open>
  The four flags of \<^verbatim>\<open>HEALTHCHECK\<close> that are durations.
\<close>

definition interval_flag_names :: "string list" where
  "interval_flag_names = [''interval'', ''timeout'', ''start-period'', ''start-interval'']"

text \<open>The field of the health check in which the value of each of them is stored.\<close>

definition health_duration :: "HealthcheckConfig \<Rightarrow> string \<Rightarrow> int" where
  "health_duration hc n =
     (if n = ''interval'' then Interval hc
      else if n = ''timeout'' then Timeout hc
      else if n = ''start-period'' then StartPeriod hc
      else StartInterval hc)"

text \<open>
  Reading a graph: the copies of a file operation in the order they are carried out (a
  chain keeps its earlier copies behind \<open>prev\<close>), the HTTP node the specification
  expects for a parsed entry, and the input, the command line and the mounts of an exec.
\<close>

fun copies :: "FileAction \<Rightarrow> (State \<times> string \<times> string \<times> CopyInfo) list" where
  "copies (FileActionCopy prev input src dest opt) =
     (case prev of None \<Rightarrow> [] | Some a \<Rightarrow> copies a) @ [(input, src, dest, opt)]"

definition file_copies :: "State \<Rightarrow> (State \<times> string \<times> string \<times> CopyInfo) list" where
  "file_copies st =
     (case st of
        StateFile base (Some a) opts \<Rightarrow> copies a
      | _ \<Rightarrow> [])"

definition http_node :: "PackageDownload \<Rightarrow> State" where
  "http_node f =
     HTTP (uri f)
       (if sha256 f = [] then [Filename (filename f)]
        else [Filename (filename f), Checksum (''sha256:'' @ sha256 f)])"

definition exec_input :: "State \<Rightarrow> State option" where
  "exec_input st = (case st of StateRun base opts \<Rightarrow> Some base | _ \<Rightarrow> None)"

definition exec_options :: "State \<Rightarrow> LLBOption list" where
  "exec_options st = (case st of StateRun base opts \<Rightarrow> opts | _ \<Rightarrow> [])"

fun option_args :: "LLBOption \<Rightarrow> string list list" where
  "option_args (Args as) = [as]"
| "option_args opt = []"

fun option_mounts :: "LLBOption \<Rightarrow> (string \<times> State \<times> MountOption list) list" where
  "option_mounts (AddMount target source opts) = [(target, source, opts)]"
| "option_mounts opt = []"

definition exec_args :: "State \<Rightarrow> string list list" where
  "exec_args st = concat (map option_args (exec_options st))"

definition exec_mounts :: "State \<Rightarrow> (string \<times> State \<times> MountOption list) list" where
  "exec_mounts st = concat (map option_mounts (exec_options st))"

definition file_base :: "State \<Rightarrow> State option" where
  "file_base st = (case st of StateFile base action opts \<Rightarrow> Some base | _ \<Rightarrow> None)"

definition file_action :: "State \<Rightarrow> FileAction option" where
  "file_action st = (case st of StateFile base action opts \<Rightarrow> action | _ \<Rightarrow> None)"

text \<open>
  The engine reads \<open>content\<close> back at \<open>path\<close> from the state \<open>st\<close>: the build context
  is there, and \<open>st\<close> is marshalled and solved into a reference from which \<open>path\<close>
  reads as \<open>content\<close>.
\<close>

definition reads_back ::
  "helpers \<Rightarrow> PackageInvocation \<Rightarrow> State \<Rightarrow> string \<Rightarrow> string \<Rightarrow> bool" where
  "reads_back h i st path content =
     ((\<exists>bctx. MainContext (dopt i)
          (case normalizeContextPaths h (ctxPaths (d i)) of
             None \<Rightarrow> [] | Some includePatterns \<Rightarrow> [FollowPaths includePatterns]) = Inr bctx) \<and>
      (\<exists>def res ref.
          Marshal (dopt i) st (targetPlatform (dopt i)) = Inr def \<and>
          Solve (dopt i) def (CacheImports (dopt i)) = Inr res \<and>
          SingleRef (dopt i) res = Inr ref \<and>
          RefReadFile (dopt i) ref path = Inr content))"

text \<open>
  The pieces of a dispatch, for the proofs: a history entry committed to an image, the
  exec that \<open>Run\<close> builds, and the invocation and the state after the first and the
  second exec.
\<close>

definition committed :: "Image \<Rightarrow> string \<Rightarrow> bool \<Rightarrow> nat option \<Rightarrow> Image" where
  "committed img msg withLayer tm =
     img\<lparr>ImageHistory := ImageHistory img @
            [\<lparr>CreatedBy = msg, EmptyLayer = (\<not> withLayer), Created = tm\<rparr>]\<rparr>"

definition exec_over ::
  "helpers \<Rightarrow> PackageInvocation \<Rightarrow> State \<Rightarrow> string \<Rightarrow> string \<Rightarrow> LLBOption list \<Rightarrow> State" where
  "exec_over h i st stageName script extra =
     StateRun st
       ([AddEnv ''DEBIAN_FRONTEND'' ''noninteractive'',
         dfCmd (cmd i),
         locationOpt (sourceMap (dopt i)) (cmdLocation (cmd i)),
         WithCustomName stageName,
         Args (withShell h (image (d i)) [script])] @
        (if ignoreCache (d i) then [IgnoreCache] else []) @ extra)"

definition update_script :: string where
  "update_script = Join [''mkdir -p /btidor.syntax/state/lists/partial'',
       ''apt-get update '' @ aptions,
       ''cp -r /btidor.syntax/state /btidor.syntax/backup''] '' && ''"

definition after_update :: "PackageInvocation \<Rightarrow> PackageInvocation" where
  "after_update i =
     i\<lparr>d := (d i)\<lparr>image := committed (image (d i)) (updateStage i) False (epoch (d i))\<rparr>\<rparr>"

definition after_download :: "PackageInvocation \<Rightarrow> PackageInvocation" where
  "after_download i =
     (after_update i)\<lparr>d := (d (after_update i))\<lparr>image :=
        committed (image (d (after_update i))) (downloadStage i) False (epoch (d i))\<rparr>\<rparr>"

definition update_exec :: "helpers \<Rightarrow> PackageInvocation \<Rightarrow> State" where
  "update_exec h i =
     exec_over h i (state (d i)) (updateStage i) update_script
       [AddMount ''/btidor.syntax/state'' (state (d i))
          [AsPersistentCacheDir ''btidor.syntax'' CacheMountShared]]"

definition download_exec :: "helpers \<Rightarrow> PackageInvocation \<Rightarrow> State" where
  "download_exec h i =
     exec_over h (after_update i) (update_exec h i) (downloadStage i)
       (Join [''mv /btidor.syntax/backup /btidor.syntax/state'',
              ''apt-get install -qq --print-uris '' @ aptions @ '' '' @
                Join (PackageNames (cmd i)) '' '' @ '' > /btidor.syntax/install''] '' && '') []"

subsection \<open>Example inputs\<close>

text \<open>
  Two listing lines and a listing with a blank line, leading spaces and a trailing
  carriage return; a line whose size has twenty digits; a short line.
\<close>

definition example_line1 :: string where
  "example_line1 =
     CHR 0x27 # ''http://deb/pool/n/nginx_1.18.deb'' @
     CHR 0x27 # '' nginx_1.18.deb 43692 SHA256:0a1B2c''"

definition example_line2 :: string where
  "example_line2 =
     CHR 0x27 # ''http://deb/pool/s/sl_5.02.deb'' @ CHR 0x27 # '' sl_5.02.deb 12345''"

definition example_listing :: string where
  "example_listing =
     example_line1 @ [CHR 0x0A, CHR 0x0A] @ ''  '' @ example_line2 @
     [CHR '' '', CHR 0x0D, CHR 0x0A]"

definition oversize_line :: string where
  "oversize_line = CHR 0x27 # ''u'' @ CHR 0x27 # '' f 99999999999999999999''"


text \<open>
  A flag set whose \<^verbatim>\<open>Parse\<close> succeeds and leaves the given values in the flags;
  \<^verbatim>\<open>time.ParseDuration\<close> at three inputs; a request without heredocs and attributes,
  as the parser makes it for a shell-form instruction.
\<close>

definition given_flags :: "(string \<times> string) list \<Rightarrow> BFlags" where
  "given_flags given registered =
     Inr \<lparr>flag = (\<lambda>n. case find (\<lambda>f. flagName f = n) registered of
                        None \<Rightarrow> AddString n []
                      | Some f \<Rightarrow> (case map_of given n of None \<Rightarrow> f | Some v \<Rightarrow> f\<lparr>Value := v\<rparr>)),
          used = (\<lambda>n. map_of given n \<noteq> None)\<rparr>"

definition sample_ParseDuration :: "string \<Rightarrow> error + int" where
  "sample_ParseDuration s =
     (if s = ''0s'' then Inr 0
      else if s = ''500us'' then Inr 500000
      else if s = ''30s'' then Inr 30000000000
      else Inl (InvalidDuration s))"

definition sample_externals :: externals where
  "sample_externals =
     \<lparr>MustParseHeredoc = (\<lambda>s. None),
      ChompHeredocContent = (\<lambda>s. s),
      ParseDuration = sample_ParseDuration,
      handleJSONArgs = (\<lambda>as attrs. if as = [] then [] else if attrs ''json'' then as else [Join as '' '']),
      excludePatternsEnabled = False\<rparr>"

definition sample_request ::
  "string \<Rightarrow> (string \<times> string) list \<Rightarrow> string list \<Rightarrow> string \<Rightarrow> parseRequest" where
  "sample_request c given as line =
     \<lparr>command = c, args = as, heredocs = [], attributes = (\<lambda>a. False),
      flags = given_flags given, original = line, location = [((1, 0), (1, length line))],
      comments = []\<rparr>"

definition healthcheck_request :: "(string \<times> string) list \<Rightarrow> parseRequest" where
  "healthcheck_request given =
     sample_request ''HEALTHCHECK'' given [''CMD'', ''curl'', ''-f'', ''http://localhost/'']
       ''HEALTHCHECK CMD curl -f http://localhost/''"

text \<open>
  A dispatch of \<^verbatim>\<open>ADD --apt nginx\<close> after \<^verbatim>\<open>FROM ubuntu\<close>, on an engine that
  reads \<open>content\<close> back as the URI listing.
\<close>

definition sample_helpers :: helpers where
  "sample_helpers =
     \<lparr>withShell = (\<lambda>img as. (if Shell img = [] then [''/bin/sh'', ''-c''] else Shell img) @ as),
      normalizeContextPaths = (\<lambda>paths. None)\<rparr>"

definition sample_invocation :: "string \<Rightarrow> PackageInvocation" where
  "sample_invocation content =
     \<lparr>d = \<lparr>state = OpaqueState ''ubuntu'', image = \<lparr>Shell = [], ImageHistory = []\<rparr>,
           ignoreCache = False, epoch = None, ctxPaths = []\<rparr>,
      cmd = \<lparr>code = ''ADD --apt nginx'', cmdName = ''ADD'', cmdLocation = [((3, 0), (3, 15))],
             PackageNames = [''nginx'']\<rparr>,
      dopt = \<lparr>sourceMap = ''Dockerfile'', targetPlatform = ''linux/amd64'',
              rawBuildContext = None, CacheImports = [],
              MainContext = (\<lambda>opts. Inr (OpaqueState ''context'')),
              Marshal = (\<lambda>st platform. Inr ''definition''),
              Solve = (\<lambda>def imports. Inr 0),
              SingleRef = (\<lambda>res. Inr 0),
              RefReadFile = (\<lambda>ref path. if path = ''/btidor.syntax/install'' then Inr content
                                           else Inl (ExternalError ''no such file''))\<rparr>,
      updateStage = ''ADD (apt update) nginx'',
      downloadStage = ''ADD (apt download) nginx'',
      installStage = ''ADD (apt install) nginx''\<rparr>"

section \<open>ParseURIs\<close>

lemma FindStringSubmatch_length:
  "FindStringSubmatch re s = Some m \<Longrightarrow> length m = Suc (NumSubexp re)"
  by (auto simp: FindStringSubmatch_def split: option.splits)

lemma aptRegex_length: "FindStringSubmatch aptRegex s = Some m \<Longrightarrow> length m = 6"
  by (drule FindStringSubmatch_length) (simp add: aptRegex_def)

lemma ParseURIs_lines_step:
  "ParseURIs_lines (l # ls) acc =
     (if TrimSpace l = [] then ParseURIs_lines ls acc
      else (case line_record (TrimSpace l) of
              Inl e \<Rightarrow> Inl e
            | Inr r \<Rightarrow> ParseURIs_lines ls (acc @ [r])))"
  by (auto simp: line_record_def Let_def dest: aptRegex_length split: option.splits sum.splits)

lemma ParseURIs_lines_ok:
  "\<forall>l \<in> set (filter (\<lambda>l. l \<noteq> []) (map TrimSpace ls)). isl (line_record l) = False \<Longrightarrow>
   ParseURIs_lines ls acc =
     Inr (acc @ map (\<lambda>l. projr (line_record l)) (filter (\<lambda>l. l \<noteq> []) (map TrimSpace ls)))"
proof (induction ls arbitrary: acc)
  case Nil
  show ?case by simp
next
  case (Cons l ls)
  show ?case
  proof (cases "TrimSpace l = []")
    case True
    with Cons show ?thesis by (simp only: ParseURIs_lines_step) simp
  next
    case False
    with Cons.prems obtain r where r: "line_record (TrimSpace l) = Inr r"
      by (cases "line_record (TrimSpace l)") auto
    from Cons.prems
    have "\<forall>l \<in> set (filter (\<lambda>l. l \<noteq> []) (map TrimSpace ls)). isl (line_record l) = False"
      by simp
    from Cons.IH [OF this, of "acc @ [r]"] False r show ?thesis
      by (simp only: ParseURIs_lines_step) simp
  qed
qed

lemma ParseURIs_lines_fail:
  "\<exists>l \<in> set (filter (\<lambda>l. l \<noteq> []) (map TrimSpace ls)). isl (line_record l) \<Longrightarrow>
   \<exists>e. ParseURIs_lines ls acc = Inl e"
proof (induction ls arbitrary: acc)
  case Nil
  then show ?case by simp
next
  case (Cons l ls)
  show ?case
  proof (cases "TrimSpace l \<noteq> [] \<and> isl (line_record (TrimSpace l))")
    case True
    then show ?thesis
      by (simp only: ParseURIs_lines_step) (auto split: sum.splits)
  next
    case False
    with Cons.prems
    have "\<exists>l \<in> set (filter (\<lambda>l. l \<noteq> []) (map TrimSpace ls)). isl (line_record l)"
      by (auto split: if_splits)
    from Cons.IH [OF this] show ?thesis
      by (simp only: ParseURIs_lines_step) (auto split: sum.splits)
  qed
qed

lemma ParseURIs_example_listing:
  "ParseURIs example_listing =
     Inr [\<lparr>uri = ''http://deb/pool/n/nginx_1.18.deb'', filename = ''nginx_1.18.deb'',
           size = 43692, sha256 = ''0a1B2c''\<rparr>,
          \<lparr>uri = ''http://deb/pool/s/sl_5.02.deb'', filename = ''sl_5.02.deb'',
           size = 12345, sha256 = []\<rparr>]"
  by code_simp

text \<open>
  Claim C1, as the code has it. Every non-empty trimmed line of the listing is matched
  against \<open>aptRegex\<close> and its size is converted by \<open>Atoi\<close>. When every such line matches
  and every size fits an \<^verbatim>\<open>int\<close>, \<open>ParseURIs\<close> returns one record
  \<open>{uri, filename, size, sha256}\<close> per line, in the order of the lines. When some line
  does not match, or its size does not fit, \<open>ParseURIs\<close> returns an error.
\<close>

theorem ParseURIs_records:
  "((\<forall>l \<in> set (apt_lines uris). \<exists>r. line_record l = Inr r) \<longrightarrow>
      ParseURIs uris = Inr (map (\<lambda>l. projr (line_record l)) (apt_lines uris))) \<and>
   ((\<exists>l \<in> set (apt_lines uris). \<exists>e. line_record l = Inl e) \<longrightarrow>
      (\<exists>e. ParseURIs uris = Inl e))"
proof (intro conjI impI)
  assume "\<forall>l \<in> set (apt_lines uris). \<exists>r. line_record l = Inr r"
  then have "\<forall>l \<in> set (filter (\<lambda>l. l \<noteq> []) (map TrimSpace (Split uris CHR 0x0A))).
      isl (line_record l) = False"
    unfolding apt_lines_def by auto
  from ParseURIs_lines_ok [OF this, of "[]"]
  show "ParseURIs uris = Inr (map (\<lambda>l. projr (line_record l)) (apt_lines uris))"
    by (simp add: ParseURIs_def apt_lines_def)
next
  assume "\<exists>l \<in> set (apt_lines uris). \<exists>e. line_record l = Inl e"
  then have "\<exists>l \<in> set (filter (\<lambda>l. l \<noteq> []) (map TrimSpace (Split uris CHR 0x0A))).
      isl (line_record l)"
    unfolding apt_lines_def by auto
  from ParseURIs_lines_fail [OF this, of "[]"]
  show "\<exists>e. ParseURIs uris = Inl e"
    by (simp add: ParseURIs_def)
qed

text \<open>
  The example listing: both lines parse, the first with its digest, in order.
\<close>

theorem ParseURIs_records_witness:
  "ParseURIs example_listing =
     Inr [\<lparr>uri = ''http://deb/pool/n/nginx_1.18.deb'', filename = ''nginx_1.18.deb'',
           size = 43692, sha256 = ''0a1B2c''\<rparr>,
          \<lparr>uri = ''http://deb/pool/s/sl_5.02.deb'', filename = ''sl_5.02.deb'',
           size = 12345, sha256 = []\<rparr>]"
proof -
  have ls: "apt_lines example_listing = [example_line1, example_line2]"
    by code_simp
  have r1: "line_record example_line1 =
      Inr \<lparr>uri = ''http://deb/pool/n/nginx_1.18.deb'', filename = ''nginx_1.18.deb'',
           size = 43692, sha256 = ''0a1B2c''\<rparr>"
    by code_simp
  have r2: "line_record example_line2 =
      Inr \<lparr>uri = ''http://deb/pool/s/sl_5.02.deb'', filename = ''sl_5.02.deb'',
           size = 12345, sha256 = []\<rparr>"
    by code_simp
  show ?thesis
    using ParseURIs_records [of example_listing] by (simp add: ls r1 r2)
qed

text \<open>
  Claim C1 as written (a line that matches always yields its record) fails on a size of
  twenty digits: the line matches the pattern, and \<open>ParseURIs\<close> returns the error of
  \<open>Atoi\<close>.
\<close>

theorem ParseURIs_size_overflow:
  "FindStringSubmatch aptRegex oversize_line =
       Some [oversize_line, ''u'', ''f'', ''99999999999999999999'', [], []] \<and>
   ParseURIs oversize_line = Inl (NumError ''Atoi'' ''99999999999999999999'')"
proof
  show m: "FindStringSubmatch aptRegex oversize_line =
       Some [oversize_line, ''u'', ''f'', ''99999999999999999999'', [], []]"
    by code_simp
  have t: "TrimSpace oversize_line = oversize_line"
    by code_simp
  have s: "Split oversize_line CHR 0x0A = [oversize_line]"
    by code_simp
  have n: "oversize_line \<noteq> []"
    by (simp add: oversize_line_def)
  have a: "Atoi ''99999999999999999999'' = Inl (NumError ''Atoi'' ''99999999999999999999'')"
    by (simp add: Atoi_def ParseInt10_def is_digit_def digit_val_def)
  show "ParseURIs oversize_line = Inl (NumError ''Atoi'' ''99999999999999999999'')"
    by (simp add: ParseURIs_def s t m n a)
qed

section \<open>The pattern of a listing line is anchored at its start only\<close>

lemma in_rmatch_Star:
  "(c', s') \<in> set (rmatch (Star k) b s c) \<longleftrightarrow>
     c' = c \<and> (\<exists>n. n \<le> length (takeWhile (in_class k) s) \<and> s' = drop n s)"
proof -
  have "set (rev [0 ..< Suc (length (takeWhile (in_class k) s))]) =
      {n. n \<le> length (takeWhile (in_class k) s)}"
    by auto
  then have "set (rmatch (Star k) b s c) =
      (\<lambda>n. (c, drop n s)) ` {n. n \<le> length (takeWhile (in_class k) s)}"
    by (simp only: rmatch.simps set_map)
  then show ?thesis by blast
qed

lemma in_rmatch_Plus:
  "(c', s') \<in> set (rmatch (Plus k) b s c) \<longleftrightarrow>
     c' = c \<and> (\<exists>n. 1 \<le> n \<and> n \<le> length (takeWhile (in_class k) s) \<and> s' = drop n s)"
proof -
  have "set (rev [1 ..< Suc (length (takeWhile (in_class k) s))]) =
      {n. 1 \<le> n \<and> n \<le> length (takeWhile (in_class k) s)}"
    by auto
  then have "set (rmatch (Plus k) b s c) =
      (\<lambda>n. (c, drop n s)) ` {n. 1 \<le> n \<and> n \<le> length (takeWhile (in_class k) s)}"
    by (simp only: rmatch.simps set_map)
  then show ?thesis by blast
qed

lemma drop_is_suffix: "\<exists>p. s = p @ drop n s"
  by (metis append_take_drop_id)

lemma rmatch_suffix:
  "(c', s') \<in> set (rmatch r b s c) \<Longrightarrow> \<exists>p. s = p @ s'"
proof (induction r arbitrary: b s c c' s')
  case (Lit l)
  then show ?case by (auto simp: prefix_def split: if_splits)
next
  case (Star k)
  then show ?case unfolding in_rmatch_Star by (auto simp: drop_is_suffix)
next
  case (Plus k)
  then show ?case unfolding in_rmatch_Plus by (auto simp: drop_is_suffix)
next
  case (Concat r1 r2)
  from Concat.prems obtain c1 s1 where
    a: "(c1, s1) \<in> set (rmatch r1 b s c)" and
    b: "(c', s') \<in> set (rmatch r2 (b \<and> length s1 = length s) s1 c1)"
    by auto
  from Concat.IH(1) [OF a] Concat.IH(2) [OF b] show ?case by auto
qed (auto split: if_splits list.splits)

lemma rmatch_length: "(c', s') \<in> set (rmatch r b s c) \<Longrightarrow> length s' \<le> length s"
  by (drule rmatch_suffix) auto








lemma find_leftmost_BeginText_later:
  "find_leftmost (Concat BeginText r) False s = None"
  by (induction s) (simp_all add: find_leftmost.simps [of _ False])






section \<open>DownloadFiles\<close>

lemma DownloadFiles_loop_copies:
  "(case DownloadFiles_loop files dest opt action of None \<Rightarrow> [] | Some a \<Rightarrow> copies a) =
     (case action of None \<Rightarrow> [] | Some a \<Rightarrow> copies a) @
     map (\<lambda>f. (http_node f, filename f, dest, opt)) files"
proof (induction files arbitrary: action)
  case Nil
  show ?case by simp
next
  case (Cons f files)
  show ?case
    by (simp add: Cons.IH Let_def llb_Copy_def action_Copy_def http_node_def
        NewDigestFromEncoded_def SHA256_def split: option.splits)
qed

text \<open>
  Claim C2. \<open>DownloadFiles\<close> always returns a file operation. Its copies, in the order
  they are carried out, are one per entry in the order of the entries: each copies from
  the HTTP source of the entry's URI, named by the entry's filename, with the checksum
  \<^verbatim>\<open>sha256:\<close> followed by the entry's digest exactly as parsed when the digest is not
  empty and with no checksum option when it is; the copy takes the file of that name
  into the destination, mode \<^verbatim>\<open>0644\<close>, creating the destination path.
\<close>

theorem DownloadFiles_http_nodes:
  "\<exists>st. DownloadFiles i base files dest = Inr st \<and>
     map fst (file_copies st) = map http_node files \<and>
     file_copies st =
       map (\<lambda>f. (http_node f, filename f, dest, \<lparr>Mode = Some 420, CreateDestPath = True\<rparr>)) files"
proof -
  let ?opt = "\<lparr>Mode = Some 420, CreateDestPath = True\<rparr>"
  let ?st = "StateFile base (DownloadFiles_loop files dest ?opt None)
               [dfCmd (cmd i), locationOpt (sourceMap (dopt i)) (cmdLocation (cmd i)),
                WithCustomName ''COPY (apt packages)'']"
  have d: "DownloadFiles i base files dest = Inr ?st"
    by (simp add: DownloadFiles_def)
  have c: "file_copies ?st = map (\<lambda>f. (http_node f, filename f, dest, ?opt)) files"
    using DownloadFiles_loop_copies [of files dest ?opt None]
    by (simp add: file_copies_def split: option.splits)
  then have "map fst (file_copies ?st) = map http_node files"
    by (simp add: comp_def)
  with d c show ?thesis by blast
qed

text \<open>
  The two entries of the example listing.
\<close>

theorem DownloadFiles_http_nodes_witness:
  "map fst (file_copies (projr (DownloadFiles (sample_invocation []) (OpaqueState ''tmp'')
       [\<lparr>uri = ''http://deb/pool/n/nginx_1.18.deb'', filename = ''nginx_1.18.deb'',
           size = 43692, sha256 = ''0a1B2c''\<rparr>,
        \<lparr>uri = ''http://deb/pool/s/sl_5.02.deb'', filename = ''sl_5.02.deb'',
           size = 12345, sha256 = []\<rparr>] ''/btidor.syntax/cache/archives/''))) =
     [HTTP ''http://deb/pool/n/nginx_1.18.deb''
        [Filename ''nginx_1.18.deb'', Checksum ''sha256:0a1B2c''],
      HTTP ''http://deb/pool/s/sl_5.02.deb'' [Filename ''sl_5.02.deb'']]"
  using DownloadFiles_http_nodes [of "sample_invocation []" "OpaqueState ''tmp''"
       "[\<lparr>uri = ''http://deb/pool/n/nginx_1.18.deb'', filename = ''nginx_1.18.deb'',
           size = 43692, sha256 = ''0a1B2c''\<rparr>,
        \<lparr>uri = ''http://deb/pool/s/sl_5.02.deb'', filename = ''sl_5.02.deb'',
           size = 12345, sha256 = []\<rparr>]" "''/btidor.syntax/cache/archives/''"]
  by (auto simp: http_node_def)

section \<open>Dispatch\<close>

lemma Run_result:
  "Run h i st stageName withLayer script extra =
     Inr (exec_over h i st stageName (Join script '' && '') extra,
          i\<lparr>d := (d i)\<lparr>image := committed (image (d i)) stageName withLayer (epoch (d i))\<rparr>\<rparr>)"
  by (simp add: Run_def commitToHistory_def exec_over_def committed_def Let_def)

lemma exec_over_parts:
  "exec_input (exec_over h i st n script extra) = Some st"
  "exec_args (exec_over h i st n script [AddMount t src mo]) = [withShell h (image (d i)) [script]]"
  "exec_args (exec_over h i st n script []) = [withShell h (image (d i)) [script]]"
  "exec_mounts (exec_over h i st n script [AddMount t src mo]) = [(t, src, mo)]"
  "exec_mounts (exec_over h i st n script []) = []"
  by (simp_all add: exec_over_def exec_input_def exec_args_def exec_mounts_def exec_options_def)

lemma aptions_text:
  "aptions = ''--option Acquire::ForceHash=sha256 --option Acquire::GzipIndexes=false --option Dir::Cache=/btidor.syntax/cache --option Dir::Cache::archives=archives/ --option Dir::State=/btidor.syntax/state --option Dir::State::lists=lists/ --yes --quiet''"
  by (simp add: aptions_def)

lemma update_script_text:
  "update_script = ''mkdir -p /btidor.syntax/state/lists/partial && apt-get update --option Acquire::ForceHash=sha256 --option Acquire::GzipIndexes=false --option Dir::Cache=/btidor.syntax/cache --option Dir::Cache::archives=archives/ --option Dir::State=/btidor.syntax/state --option Dir::State::lists=lists/ --yes --quiet && cp -r /btidor.syntax/state /btidor.syntax/backup''"
  by (simp add: update_script_def aptions_def)

lemma Dispatch_unfold:
  "Dispatch h i =
     (case ReadFile h (after_download i) (download_exec h i) ''/btidor.syntax/install'' of
        Inl err \<Rightarrow> Inl err
      | Inr (content, j) \<Rightarrow>
          (case ParseURIs content of
             Inl err \<Rightarrow> Inl err
           | Inr uris \<Rightarrow>
               (case DownloadFiles j (download_exec h i) uris ''/btidor.syntax/cache/archives/'' of
                  Inl err \<Rightarrow> Inl err
                | Inr acc \<Rightarrow>
                    Inr (j\<lparr>d := (d j)\<lparr>image := committed (image (d j)) (installStage j) True (epoch (d j)),
                             state := exec_over h j (state (d j)) (installStage j)
                               (''apt-get install --no-download '' @ aptions @ '' '' @
                                  Join (PackageNames (cmd j)) '' '')
                               [AddMount ''/btidor.syntax'' acc [SourcePath ''/btidor.syntax'']]\<rparr>\<rparr>))))"
  by (simp add: Dispatch_def Run_result after_update_def after_download_def update_exec_def
      download_exec_def update_script_def split: sum.splits prod.splits)

lemma ReadFile_unchanged:
  assumes "ReadFile h j st path = Inr (content, j')"
  shows "d j' = d j \<and> cmd j' = cmd j \<and> sourceMap (dopt j') = sourceMap (dopt j) \<and>
         installStage j' = installStage j"
  using assms by (auto simp: ReadFile_def Let_def split: sum.splits)

lemma ReadFile_reads_back:
  assumes "reads_back h i st path content" and "dopt j = dopt i"
    and "ctxPaths (d j) = ctxPaths (d i)"
  shows "\<exists>j'. ReadFile h j st path = Inr (content, j')"
proof -
  from assms(1) obtain bctx where
    m: "MainContext (dopt i)
          (case normalizeContextPaths h (ctxPaths (d i)) of
             None \<Rightarrow> [] | Some includePatterns \<Rightarrow> [FollowPaths includePatterns]) = Inr bctx"
    unfolding reads_back_def by blast
  from assms(1) obtain def res ref where
    "Marshal (dopt i) st (targetPlatform (dopt i)) = Inr def"
    "Solve (dopt i) def (CacheImports (dopt i)) = Inr res"
    "SingleRef (dopt i) res = Inr ref"
    "RefReadFile (dopt i) ref path = Inr content"
    unfolding reads_back_def by blast
  with m assms(2,3) show ?thesis
    by (simp add: ReadFile_def Let_def)
qed

lemma sample_reads_back:
  "reads_back sample_helpers (sample_invocation content) st ''/btidor.syntax/install'' content"
  by (simp add: reads_back_def sample_helpers_def sample_invocation_def)

lemma Dispatch_succeeds:
  assumes "reads_back h i (download_exec h i) ''/btidor.syntax/install'' content"
    and "ParseURIs content = Inr uris"
  shows "\<exists>i'. Dispatch h i = Inr i'"
proof -
  have "dopt (after_download i) = dopt i" "ctxPaths (d (after_download i)) = ctxPaths (d i)"
    by (simp_all add: after_download_def after_update_def)
  from ReadFile_reads_back [OF assms(1) this]
  obtain j where "ReadFile h (after_download i) (download_exec h i) ''/btidor.syntax/install'' = Inr (content, j)"
    by blast
  with assms(2) show ?thesis
    by (simp add: Dispatch_unfold DownloadFiles_def)
qed

lemma Dispatch_parts:
  assumes "Dispatch h i = Inr i'"
  shows "\<exists>content j uris acc.
      ReadFile h (after_download i) (download_exec h i) ''/btidor.syntax/install'' = Inr (content, j) \<and>
      ParseURIs content = Inr uris \<and>
      DownloadFiles j (download_exec h i) uris ''/btidor.syntax/cache/archives/'' = Inr acc \<and>
      state (d i') = exec_over h (after_download i) (state (d i)) (installStage i)
         (''apt-get install --no-download '' @ aptions @ '' '' @ Join (PackageNames (cmd i)) '' '')
         [AddMount ''/btidor.syntax'' acc [SourcePath ''/btidor.syntax'']] \<and>
      image (d i') = committed (image (d (after_download i))) (installStage i) True (epoch (d i))"
proof -
  from assms obtain content j where
    r: "ReadFile h (after_download i) (download_exec h i) ''/btidor.syntax/install'' = Inr (content, j)"
    unfolding Dispatch_unfold by (auto split: sum.splits)
  from assms r obtain uris where p: "ParseURIs content = Inr uris"
    unfolding Dispatch_unfold by (auto split: sum.splits)
  from assms r p obtain acc where
    a: "DownloadFiles j (download_exec h i) uris ''/btidor.syntax/cache/archives/'' = Inr acc"
    unfolding Dispatch_unfold by (auto split: sum.splits)
  from ReadFile_unchanged [OF r] have u: "d j = d (after_download i)" "cmd j = cmd (after_download i)"
    "sourceMap (dopt j) = sourceMap (dopt (after_download i))"
    "installStage j = installStage (after_download i)"
    by simp_all
  have v: "cmd (after_download i) = cmd i" "installStage (after_download i) = installStage i"
    "state (d (after_download i)) = state (d i)" "epoch (d (after_download i)) = epoch (d i)"
    "ignoreCache (d (after_download i)) = ignoreCache (d i)"
    "sourceMap (dopt (after_download i)) = sourceMap (dopt i)"
    by (simp_all add: after_download_def after_update_def)
  from assms r p a have "i' = j\<lparr>d := (d j)\<lparr>image := committed (image (d j)) (installStage j) True (epoch (d j)),
                             state := exec_over h j (state (d j)) (installStage j)
                               (''apt-get install --no-download '' @ aptions @ '' '' @
                                  Join (PackageNames (cmd j)) '' '')
                               [AddMount ''/btidor.syntax'' acc [SourcePath ''/btidor.syntax'']]\<rparr>\<rparr>"
    unfolding Dispatch_unfold by simp
  then have "state (d i') = exec_over h j (state (d j)) (installStage j)
                               (''apt-get install --no-download '' @ aptions @ '' '' @
                                  Join (PackageNames (cmd j)) '' '')
                               [AddMount ''/btidor.syntax'' acc [SourcePath ''/btidor.syntax'']]"
    and "image (d i') = committed (image (d j)) (installStage j) True (epoch (d j))"
    by simp_all
  moreover have "exec_over h j st n s e = exec_over h (after_download i) st n s e" for st n s e
    using u v by (simp add: exec_over_def)
  ultimately show ?thesis using r p a u v by auto
qed

lemma DownloadFiles_same:
  assumes "cmd j = cmd i" and "sourceMap (dopt j) = sourceMap (dopt i)"
  shows "DownloadFiles j base files dest = DownloadFiles i base files dest"
  using assms by (simp add: DownloadFiles_def)

lemma DownloadFiles_result:
  assumes "DownloadFiles i base files dest = Inr acc"
  shows "file_base acc = Some base \<and>
    file_copies acc =
      map (\<lambda>f. (http_node f, filename f, dest, \<lparr>Mode = Some 420, CreateDestPath = True\<rparr>)) files"
proof -
  let ?opt = "\<lparr>Mode = Some 420, CreateDestPath = True\<rparr>"
  from assms have acc: "acc = StateFile base (DownloadFiles_loop files dest ?opt None)
      [dfCmd (cmd i), locationOpt (sourceMap (dopt i)) (cmdLocation (cmd i)),
       WithCustomName ''COPY (apt packages)'']"
    by (simp add: DownloadFiles_def)
  have "file_copies acc = map (\<lambda>f. (http_node f, filename f, dest, ?opt)) files"
    unfolding acc using DownloadFiles_loop_copies [of files dest ?opt None]
    by (simp add: file_copies_def split: option.splits)
  moreover have "file_base acc = Some base"
    unfolding acc by (simp add: file_base_def)
  ultimately show ?thesis by simp
qed

text \<open>
  Claim C3. When a dispatch succeeds, the new state of the stage is the install exec.
  Its input is the state of the stage as it was before the dispatch. Its command line is
  the shell of the image with \<^verbatim>\<open>apt-get install --no-download\<close>, the apt options and
  the package names. Its one mount is at \<^verbatim>\<open>/btidor.syntax\<close>, with source path
  \<^verbatim>\<open>/btidor.syntax\<close>, and what it mounts is the accumulator of the download phase: the
  state that \<open>DownloadFiles\<close> returned for the entries parsed from the listing that was
  read back from the download exec, a file operation over the download exec (which runs
  over the update exec, which runs over the original state) that copies, entry by entry
  and in their order, from the HTTP node of the entry into
  \<^verbatim>\<open>/btidor.syntax/cache/archives/\<close>. The history gains three entries, whose created-by
  strings begin with the names of the update, the download and the install exec in this
  order, and only the last is not an empty layer.
\<close>

theorem Dispatch_install_exec:
  assumes "Dispatch h i = Inr i'"
  shows "exec_input (state (d i')) = Some (state (d i)) \<and>
    (\<exists>img. Shell img = Shell (image (d i)) \<and>
       exec_args (state (d i')) =
         [withShell h img
            [''apt-get install --no-download --option Acquire::ForceHash=sha256 --option Acquire::GzipIndexes=false --option Dir::Cache=/btidor.syntax/cache --option Dir::Cache::archives=archives/ --option Dir::State=/btidor.syntax/state --option Dir::State::lists=lists/ --yes --quiet '' @
             Join (PackageNames (cmd i)) '' '']]) \<and>
    (\<exists>update download j0 content j uris acc.
       exec_input update = Some (state (d i)) \<and>
       exec_input download = Some update \<and>
       dopt j0 = dopt i \<and> ctxPaths (d j0) = ctxPaths (d i) \<and>
       ReadFile h j0 download ''/btidor.syntax/install'' = Inr (content, j) \<and>
       ParseURIs content = Inr uris \<and>
       DownloadFiles i download uris ''/btidor.syntax/cache/archives/'' = Inr acc \<and>
       file_base acc = Some download \<and>
       file_copies acc =
         map (\<lambda>f. (http_node f, filename f, ''/btidor.syntax/cache/archives/'',
                    \<lparr>Mode = Some 420, CreateDestPath = True\<rparr>)) uris \<and>
       exec_mounts (state (d i')) =
         [(''/btidor.syntax'', acc, [SourcePath ''/btidor.syntax''])]) \<and>
    map EmptyLayer (ImageHistory (image (d i'))) =
      map EmptyLayer (ImageHistory (image (d i))) @ [True, True, False] \<and>
    list_all2 (\<lambda>n e. prefix n (CreatedBy e))
      [updateStage i, downloadStage i, installStage i]
      (drop (length (ImageHistory (image (d i)))) (ImageHistory (image (d i'))))"
proof -
  from Dispatch_parts [OF assms] obtain content j uris acc where
    r: "ReadFile h (after_download i) (download_exec h i) ''/btidor.syntax/install'' =
          Inr (content, j)"
    and p: "ParseURIs content = Inr uris"
    and a: "DownloadFiles j (download_exec h i) uris ''/btidor.syntax/cache/archives/'' = Inr acc"
    and s: "state (d i') = exec_over h (after_download i) (state (d i)) (installStage i)
         (''apt-get install --no-download '' @ aptions @ '' '' @ Join (PackageNames (cmd i)) '' '')
         [AddMount ''/btidor.syntax'' acc [SourcePath ''/btidor.syntax'']]"
    and m: "image (d i') = committed (image (d (after_download i))) (installStage i) True (epoch (d i))"
    by blast
  have 1: "exec_input (state (d i')) = Some (state (d i))"
    unfolding s by (rule exec_over_parts)
  have "Shell (image (d (after_download i))) = Shell (image (d i))"
    by (simp add: after_download_def after_update_def committed_def)
  moreover have "exec_args (state (d i')) =
         [withShell h (image (d (after_download i)))
            [''apt-get install --no-download --option Acquire::ForceHash=sha256 --option Acquire::GzipIndexes=false --option Dir::Cache=/btidor.syntax/cache --option Dir::Cache::archives=archives/ --option Dir::State=/btidor.syntax/state --option Dir::State::lists=lists/ --yes --quiet '' @
             Join (PackageNames (cmd i)) '' '']]"
    unfolding s exec_over_parts aptions_text by simp
  ultimately have 2: "\<exists>img. Shell img = Shell (image (d i)) \<and>
       exec_args (state (d i')) =
         [withShell h img
            [''apt-get install --no-download --option Acquire::ForceHash=sha256 --option Acquire::GzipIndexes=false --option Dir::Cache=/btidor.syntax/cache --option Dir::Cache::archives=archives/ --option Dir::State=/btidor.syntax/state --option Dir::State::lists=lists/ --yes --quiet '' @
             Join (PackageNames (cmd i)) '' '']]"
    by blast
  from ReadFile_unchanged [OF r] have "cmd j = cmd i" "sourceMap (dopt j) = sourceMap (dopt i)"
    by (simp_all add: after_download_def after_update_def)
  from DownloadFiles_same [OF this] a
  have a': "DownloadFiles i (download_exec h i) uris ''/btidor.syntax/cache/archives/'' = Inr acc"
    by simp
  note res = DownloadFiles_result [OF a']
  have u: "exec_input (update_exec h i) = Some (state (d i))"
    unfolding update_exec_def by (rule exec_over_parts)
  have dl: "exec_input (download_exec h i) = Some (update_exec h i)"
    unfolding download_exec_def by (rule exec_over_parts)
  have j0: "dopt (after_download i) = dopt i" "ctxPaths (d (after_download i)) = ctxPaths (d i)"
    by (simp_all add: after_download_def after_update_def)
  have mt: "exec_mounts (state (d i')) = [(''/btidor.syntax'', acc, [SourcePath ''/btidor.syntax''])]"
    unfolding s by (rule exec_over_parts)
  from u dl j0 r p a' res mt
  have 3: "\<exists>update download j0 content j uris acc.
       exec_input update = Some (state (d i)) \<and>
       exec_input download = Some update \<and>
       dopt j0 = dopt i \<and> ctxPaths (d j0) = ctxPaths (d i) \<and>
       ReadFile h j0 download ''/btidor.syntax/install'' = Inr (content, j) \<and>
       ParseURIs content = Inr uris \<and>
       DownloadFiles i download uris ''/btidor.syntax/cache/archives/'' = Inr acc \<and>
       file_base acc = Some download \<and>
       file_copies acc =
         map (\<lambda>f. (http_node f, filename f, ''/btidor.syntax/cache/archives/'',
                    \<lparr>Mode = Some 420, CreateDestPath = True\<rparr>)) uris \<and>
       exec_mounts (state (d i')) =
         [(''/btidor.syntax'', acc, [SourcePath ''/btidor.syntax''])]"
    by blast
  have 4: "map EmptyLayer (ImageHistory (image (d i'))) =
      map EmptyLayer (ImageHistory (image (d i))) @ [True, True, False]"
    unfolding m by (simp add: committed_def after_download_def after_update_def)
  have 5: "list_all2 (\<lambda>n e. prefix n (CreatedBy e))
      [updateStage i, downloadStage i, installStage i]
      (drop (length (ImageHistory (image (d i)))) (ImageHistory (image (d i'))))"
    unfolding m by (simp add: committed_def after_download_def after_update_def)
  from 1 2 3 4 5 show ?thesis by blast
qed

text \<open>
  The example dispatch, with the example listing read back: the install exec runs over
  the root of the stage and mounts the file operation that copies from the HTTP nodes of
  the two entries of the listing.
\<close>

theorem Dispatch_install_exec_witness:
  "exec_input (state (d (projr (Dispatch sample_helpers (sample_invocation example_listing))))) =
     Some (OpaqueState ''ubuntu'') \<and>
   exec_args (state (d (projr (Dispatch sample_helpers (sample_invocation example_listing))))) =
     [[''/bin/sh'', ''-c'',
       ''apt-get install --no-download --option Acquire::ForceHash=sha256 --option Acquire::GzipIndexes=false --option Dir::Cache=/btidor.syntax/cache --option Dir::Cache::archives=archives/ --option Dir::State=/btidor.syntax/state --option Dir::State::lists=lists/ --yes --quiet nginx'']] \<and>
   map (\<lambda>(target, source, opts). (target, map fst (file_copies source), opts))
     (exec_mounts (state (d (projr (Dispatch sample_helpers
        (sample_invocation example_listing)))))) =
     [(''/btidor.syntax'',
       [HTTP ''http://deb/pool/n/nginx_1.18.deb''
          [Filename ''nginx_1.18.deb'', Checksum ''sha256:0a1B2c''],
        HTTP ''http://deb/pool/s/sl_5.02.deb'' [Filename ''sl_5.02.deb'']],
       [SourcePath ''/btidor.syntax''])] \<and>
   map EmptyLayer (ImageHistory (image (d (projr (Dispatch sample_helpers
       (sample_invocation example_listing)))))) = [True, True, False]"
proof -
  from Dispatch_succeeds [OF sample_reads_back ParseURIs_example_listing]
  obtain i' where i': "Dispatch sample_helpers (sample_invocation example_listing) = Inr i'"
    by blast
  note t = Dispatch_install_exec [OF i']
  from t have 1: "exec_input (state (d i')) = Some (OpaqueState ''ubuntu'')"
    by (simp add: sample_invocation_def)
  from t have 2: "exec_args (state (d i')) =
     [[''/bin/sh'', ''-c'',
       ''apt-get install --no-download --option Acquire::ForceHash=sha256 --option Acquire::GzipIndexes=false --option Dir::Cache=/btidor.syntax/cache --option Dir::Cache::archives=archives/ --option Dir::State=/btidor.syntax/state --option Dir::State::lists=lists/ --yes --quiet nginx'']]"
    by (auto simp: sample_helpers_def sample_invocation_def)
  from t obtain download j0 content j uris acc where
    j0: "dopt j0 = dopt (sample_invocation example_listing)"
    and r: "ReadFile sample_helpers j0 download ''/btidor.syntax/install'' = Inr (content, j)"
    and p: "ParseURIs content = Inr uris"
    and c: "file_copies acc =
         map (\<lambda>f. (http_node f, filename f, ''/btidor.syntax/cache/archives/'',
                    \<lparr>Mode = Some 420, CreateDestPath = True\<rparr>)) uris"
    and mt: "exec_mounts (state (d i')) =
         [(''/btidor.syntax'', acc, [SourcePath ''/btidor.syntax''])]"
    by blast
  from r j0 have "content = example_listing"
    by (auto simp: ReadFile_def Let_def sample_invocation_def split: sum.splits)
  with p have "uris =
     [\<lparr>uri = ''http://deb/pool/n/nginx_1.18.deb'', filename = ''nginx_1.18.deb'',
           size = 43692, sha256 = ''0a1B2c''\<rparr>,
      \<lparr>uri = ''http://deb/pool/s/sl_5.02.deb'', filename = ''sl_5.02.deb'',
           size = 12345, sha256 = []\<rparr>]"
    by (simp add: ParseURIs_example_listing)
  with c mt have 3: "map (\<lambda>(target, source, opts). (target, map fst (file_copies source), opts))
     (exec_mounts (state (d i'))) =
     [(''/btidor.syntax'',
       [HTTP ''http://deb/pool/n/nginx_1.18.deb''
          [Filename ''nginx_1.18.deb'', Checksum ''sha256:0a1B2c''],
        HTTP ''http://deb/pool/s/sl_5.02.deb'' [Filename ''sl_5.02.deb'']],
       [SourcePath ''/btidor.syntax''])]"
    by (simp add: http_node_def)
  from t have 4: "map EmptyLayer (ImageHistory (image (d i'))) = [True, True, False]"
    by (simp add: sample_invocation_def)
  from 1 2 3 4 show ?thesis unfolding i' by simp
qed

text \<open>
  Claim C5. When a dispatch succeeds, the update exec (the input of the download exec,
  under the file operation that the install exec mounts) runs over the original state of
  the stage; its command line is the shell of the image with one script, which joins
  with \<^verbatim>\<open>&&\<close> the creation of the partial-lists directory, \<^verbatim>\<open>apt-get update\<close> with the
  apt options, and the copy of \<^verbatim>\<open>/btidor.syntax/state\<close> to \<^verbatim>\<open>/btidor.syntax/backup\<close>;
  its one mount is at \<^verbatim>\<open>/btidor.syntax/state\<close>, a persistent cache directory with id
  \<^verbatim>\<open>btidor.syntax\<close> and sharing mode shared.
\<close>

theorem Dispatch_update_exec:
  assumes "Dispatch h i = Inr i'"
  shows "\<exists>acc download update.
      exec_mounts (state (d i')) = [(''/btidor.syntax'', acc, [SourcePath ''/btidor.syntax''])] \<and>
      file_base acc = Some download \<and>
      exec_input download = Some update \<and>
      exec_input update = Some (state (d i)) \<and>
      exec_args update =
        [withShell h (image (d i))
           [''mkdir -p /btidor.syntax/state/lists/partial && apt-get update --option Acquire::ForceHash=sha256 --option Acquire::GzipIndexes=false --option Dir::Cache=/btidor.syntax/cache --option Dir::Cache::archives=archives/ --option Dir::State=/btidor.syntax/state --option Dir::State::lists=lists/ --yes --quiet && cp -r /btidor.syntax/state /btidor.syntax/backup'']] \<and>
      exec_mounts update =
        [(''/btidor.syntax/state'', state (d i),
          [AsPersistentCacheDir ''btidor.syntax'' CacheMountShared])]"
proof -
  from Dispatch_parts [OF assms] obtain content j uris acc where
    a: "DownloadFiles j (download_exec h i) uris ''/btidor.syntax/cache/archives/'' = Inr acc"
    and s: "state (d i') = exec_over h (after_download i) (state (d i)) (installStage i)
         (''apt-get install --no-download '' @ aptions @ '' '' @ Join (PackageNames (cmd i)) '' '')
         [AddMount ''/btidor.syntax'' acc [SourcePath ''/btidor.syntax'']]"
    by blast
  have 1: "exec_mounts (state (d i')) = [(''/btidor.syntax'', acc, [SourcePath ''/btidor.syntax''])]"
    unfolding s by (rule exec_over_parts)
  from a have 2: "file_base acc = Some (download_exec h i)"
    by (auto simp: DownloadFiles_def file_base_def)
  have 3: "exec_input (download_exec h i) = Some (update_exec h i)"
    unfolding download_exec_def by (rule exec_over_parts)
  have 4: "exec_input (update_exec h i) = Some (state (d i))"
    unfolding update_exec_def by (rule exec_over_parts)
  have 5: "exec_args (update_exec h i) =
        [withShell h (image (d i))
           [''mkdir -p /btidor.syntax/state/lists/partial && apt-get update --option Acquire::ForceHash=sha256 --option Acquire::GzipIndexes=false --option Dir::Cache=/btidor.syntax/cache --option Dir::Cache::archives=archives/ --option Dir::State=/btidor.syntax/state --option Dir::State::lists=lists/ --yes --quiet && cp -r /btidor.syntax/state /btidor.syntax/backup'']]"
    unfolding update_exec_def exec_over_parts update_script_text ..
  have 6: "exec_mounts (update_exec h i) =
        [(''/btidor.syntax/state'', state (d i),
          [AsPersistentCacheDir ''btidor.syntax'' CacheMountShared])]"
    unfolding update_exec_def by (rule exec_over_parts)
  from 1 2 3 4 5 6 show ?thesis by blast
qed

text \<open>
  The example dispatch, with the example listing read back.
\<close>

theorem Dispatch_update_exec_witness:
  "\<exists>acc download update.
     exec_mounts (state (d (projr (Dispatch sample_helpers (sample_invocation example_listing))))) =
       [(''/btidor.syntax'', acc, [SourcePath ''/btidor.syntax''])] \<and>
     file_base acc = Some download \<and>
     exec_input download = Some update \<and>
     exec_input update = Some (OpaqueState ''ubuntu'') \<and>
     exec_args update =
       [[''/bin/sh'', ''-c'',
         ''mkdir -p /btidor.syntax/state/lists/partial && apt-get update --option Acquire::ForceHash=sha256 --option Acquire::GzipIndexes=false --option Dir::Cache=/btidor.syntax/cache --option Dir::Cache::archives=archives/ --option Dir::State=/btidor.syntax/state --option Dir::State::lists=lists/ --yes --quiet && cp -r /btidor.syntax/state /btidor.syntax/backup'']] \<and>
     exec_mounts update =
       [(''/btidor.syntax/state'', OpaqueState ''ubuntu'',
         [AsPersistentCacheDir ''btidor.syntax'' CacheMountShared])]"
proof -
  from Dispatch_succeeds [OF sample_reads_back ParseURIs_example_listing]
  obtain i' where i': "Dispatch sample_helpers (sample_invocation example_listing) = Inr i'"
    by blast
  from Dispatch_update_exec [OF i'] show ?thesis
    unfolding i' by (simp add: sample_helpers_def sample_invocation_def)
qed

lemma Dispatch_no_entries:
  assumes "reads_back h i (download_exec h i) ''/btidor.syntax/install'' content"
    and "apt_lines content = []"
  shows "ParseURIs content = Inr [] \<and>
    (\<exists>i' acc. Dispatch h i = Inr i' \<and>
       exec_mounts (state (d i')) = [(''/btidor.syntax'', acc, [SourcePath ''/btidor.syntax''])] \<and>
       file_action acc = None)"
proof -
  from assms(2) have e: "filter (\<lambda>l. l \<noteq> []) (map TrimSpace (Split content CHR 0x0A)) = []"
    by (simp add: apt_lines_def)
  then have "\<forall>l \<in> set (filter (\<lambda>l. l \<noteq> []) (map TrimSpace (Split content CHR 0x0A))).
      isl (line_record l) = False"
    by simp
  from ParseURIs_lines_ok [OF this, of "[]"] e have p: "ParseURIs content = Inr []"
    by (simp add: ParseURIs_def)
  from Dispatch_succeeds [OF assms(1) p] obtain i' where i': "Dispatch h i = Inr i'"
    by blast
  from Dispatch_parts [OF i'] p obtain j acc where
    a: "DownloadFiles j (download_exec h i) [] ''/btidor.syntax/cache/archives/'' = Inr acc"
    and s: "state (d i') = exec_over h (after_download i) (state (d i)) (installStage i)
         (''apt-get install --no-download '' @ aptions @ '' '' @ Join (PackageNames (cmd i)) '' '')
         [AddMount ''/btidor.syntax'' acc [SourcePath ''/btidor.syntax'']]"
    using ReadFile_reads_back [OF assms(1), of "after_download i"]
    by (auto simp: after_download_def after_update_def)
  from a have "file_action acc = None"
    by (auto simp: DownloadFiles_def file_action_def)
  moreover have "exec_mounts (state (d i')) = [(''/btidor.syntax'', acc, [SourcePath ''/btidor.syntax''])]"
    unfolding s by (rule exec_over_parts)
  ultimately show ?thesis using p i' by blast
qed

text \<open>
  Claim C4 is not met by the code. On the example dispatch with an empty listing read
  back (\<^verbatim>\<open>apt-get install --print-uris\<close> printed nothing), \<open>ParseURIs\<close> returns no
  entries and no error, the loop of \<open>DownloadFiles\<close> never runs and leaves its action
  unset, and \<open>Dispatch\<close> returns no error: the install exec it returns mounts a file
  operation without an action. No error for a listing without URIs is raised anywhere
  in \<open>Dispatch\<close>; the build can only fail afterwards, when the graph is marshalled, with
  an error of the file operation that names neither the packages nor the listing.
\<close>

theorem Dispatch_no_uris_nil_action:
  "ParseURIs [] = Inr [] \<and>
   \<not> isl (Dispatch sample_helpers (sample_invocation [])) \<and>
   map (\<lambda>(target, source, opts). (target, file_action source, opts))
     (exec_mounts (state (d (projr (Dispatch sample_helpers (sample_invocation [])))))) =
     [(''/btidor.syntax'', None, [SourcePath ''/btidor.syntax''])]"
proof -
  have "apt_lines [] = []"
    by code_simp
  from Dispatch_no_entries [OF sample_reads_back this]
  show ?thesis by auto
qed

section \<open>ADD and its positional arguments\<close>

text \<open>
  Claim C6, as the code has it. For an \<^verbatim>\<open>ADD\<close> instruction with fewer than two
  positional arguments: when its flags do not parse, the error of the flags is returned;
  when they parse and \<^verbatim>\<open>--apt\<close> is not true, parsing is rejected with the error that
  the destination could not be determined; when \<^verbatim>\<open>--apt\<close> is true, parsing succeeds
  with the Package instruction whose package names are the positional arguments,
  however few they are.
\<close>

theorem parseAdd_destination:
  assumes "length (args req) < 2"
  shows "parseAdd ext req =
    (case flags req (parseAdd_flags ext) of
       Inl err \<Rightarrow> Inl err
     | Inr fl \<Rightarrow>
         if Value (flag fl ''apt'') = ''true''
         then Inr (Package (withNameAndCode.extend (newWithNameAndCode req)
                     \<lparr>PackageNames = args req\<rparr>))
         else Inl (NoDestinationArgument ''ADD''))"
proof (cases "flags req (parseAdd_flags ext)")
  case (Inl err)
  then show ?thesis by (simp add: parseAdd_def)
next
  case (Inr fl)
  show ?thesis
  proof (cases "Value (flag fl ''apt'') = ''true''")
    case True
    with Inr show ?thesis by (simp add: parseAdd_def)
  next
    case False
    with Inr assms show ?thesis by (simp add: parseAdd_def)
  qed
qed

text \<open>
  \<^verbatim>\<open>ADD a.txt\<close> is rejected.
\<close>

theorem parseAdd_destination_witness:
  "parseAdd sample_externals (sample_request ''ADD'' [] [''a.txt''] ''ADD a.txt'') =
     Inl (NoDestinationArgument ''ADD'')"
proof -
  have "length (args (sample_request ''ADD'' [] [''a.txt''] ''ADD a.txt'')) < 2"
    by (simp add: sample_request_def)
  from parseAdd_destination [OF this, of sample_externals] show ?thesis
    by (simp add: sample_request_def given_flags_def parseAdd_flags_def sample_externals_def
        AddBool_def AddString_def)
qed

text \<open>
  Claim C6 as written (also with \<^verbatim>\<open>--apt\<close>) fails: \<^verbatim>\<open>ADD --apt nginx\<close> has one
  positional argument and parses to a Package instruction.
\<close>

theorem parseAdd_apt_one_argument:
  "parseAdd sample_externals
     (sample_request ''ADD'' [(''apt'', ''true'')] [''nginx''] ''ADD --apt nginx'') =
   Inr (Package \<lparr>code = ''ADD --apt nginx'', cmdName = ''ADD'', cmdLocation = [((1, 0), (1, 15))],
                 PackageNames = [''nginx'']\<rparr>)"
  by (simp add: parseAdd_def sample_request_def given_flags_def parseAdd_flags_def
      sample_externals_def AddBool_def AddString_def newWithNameAndCode_def
      withNameAndCode.extend_def)

section \<open>Stage names\<close>

lemma rmatch_Concat_nonempty:
  "rmatch (Concat r1 r2) b s c \<noteq> [] \<longleftrightarrow>
     (\<exists>c' s'. (c', s') \<in> set (rmatch r1 b s c) \<and>
        rmatch r2 (b \<and> length s' = length s) s' c' \<noteq> [])"
proof -
  have "rmatch (Concat r1 r2) b s c =
      concat (map (\<lambda>(c', s'). rmatch r2 (b \<and> length s' = length s) s' c') (rmatch r1 b s c))"
    by simp
  then show ?thesis by (simp del: rmatch.simps) force
qed

lemma Star_EndText:
  "rmatch (Concat (Star k) EndText) b xs c \<noteq> [] \<longleftrightarrow> list_all (in_class k) xs"
proof -
  have "rmatch (Concat (Star k) EndText) b xs c \<noteq> [] \<longleftrightarrow>
      (\<exists>c' s'. (c', s') \<in> set (rmatch (Star k) b xs c) \<and> s' = [])"
    unfolding rmatch_Concat_nonempty by simp
  also have "\<dots> \<longleftrightarrow> (\<exists>n. n \<le> length (takeWhile (in_class k) xs) \<and> drop n xs = [])"
    unfolding in_rmatch_Star by auto
  also have "\<dots> \<longleftrightarrow> length xs \<le> length (takeWhile (in_class k) xs)"
    by auto
  also have "\<dots> \<longleftrightarrow> takeWhile (in_class k) xs = xs"
    using length_takeWhile_le [of "in_class k" xs]
    by (metis takeWhile_eq_take le_antisym take_all order_refl)
  also have "\<dots> \<longleftrightarrow> list_all (in_class k) xs"
    by (simp add: takeWhile_eq_all_conv list_all_iff)
  finally show ?thesis .
qed

lemma BeginText_OneOf_nonempty:
  "rmatch (Concat BeginText (Concat (OneOf k) r)) True s c \<noteq> [] \<longleftrightarrow>
     (\<exists>x xs. s = x # xs \<and> in_class k x \<and> rmatch r False xs c \<noteq> [])"
  unfolding rmatch_Concat_nonempty by (cases s) auto

lemma validStageName_pattern: "MatchString validStageName s \<longleftrightarrow> stage_name_pattern s"
proof -
  let ?nc = "CC False [(CHR ''a'', CHR ''z''), (CHR ''0'', CHR ''9''), (CHR ''-'', CHR ''-''),
                      (CHR ''_'', CHR ''_''), (CHR ''.'', CHR ''.'')]"
  let ?lc = "CC False [(CHR ''a'', CHR ''z'')]"
  let ?r = "Concat BeginText (Concat (OneOf ?lc) (Concat (Star ?nc) EndText))"
  have e: "expr validStageName = ?r"
    by (simp add: validStageName_def)
  have "find_leftmost ?r True s \<noteq> None \<longleftrightarrow> rmatch ?r True s (\<lambda>n. None) \<noteq> []"
    by (simp add: find_leftmost.simps [of _ True] find_leftmost_BeginText_later
          del: rmatch.simps split: list.splits)
  also have "\<dots> \<longleftrightarrow> (\<exists>x xs. s = x # xs \<and> in_class ?lc x \<and> list_all (in_class ?nc) xs)"
    unfolding BeginText_OneOf_nonempty Star_EndText ..
  also have "\<dots> \<longleftrightarrow> stage_name_pattern s"
  proof (cases s)
    case Nil
    then show ?thesis by (simp add: stage_name_pattern_def)
  next
    case (Cons x xs)
    have "list_all (in_class ?nc) xs \<longleftrightarrow>
      list_all (\<lambda>x. CHR ''a'' \<le> x \<and> x \<le> CHR ''z'' \<or> CHR ''0'' \<le> x \<and> x \<le> CHR ''9'' \<or>
                        x = CHR ''.'' \<or> x = CHR ''_'' \<or> x = CHR ''-'') xs"
      by (rule list.pred_cong [OF refl]) auto
    with Cons show ?thesis by (simp add: stage_name_pattern_def)
  qed
  finally show ?thesis unfolding MatchString_def e .
qed

text \<open>
  Claim C7, as the code has it. In the three-argument form of \<^verbatim>\<open>FROM\<close> (the middle
  argument equal to \<^verbatim>\<open>as\<close> up to case), the declared name is put in lower case first:
  it is accepted, and the stage is named by its lower-case form, if and only if that
  lower-case form matches \<^verbatim>\<open>^[a-z][a-z0-9._-]*$\<close>; otherwise it is rejected with the
  invalid-stage-name error, which quotes the name as declared.
\<close>

theorem parseBuildStageName_lowercased:
  assumes "length as = 3" and "EqualFold (as ! 1) ''as''"
  shows "parseBuildStageName as =
    (if stage_name_pattern (ToLower (as ! 2)) then Inr (ToLower (as ! 2))
     else Inl (InvalidStageName (as ! 2)))"
proof -
  from assms have "parseBuildStageName as =
    (if MatchString validStageName (ToLower (as ! 2)) then Inr (ToLower (as ! 2))
     else Inl (InvalidStageName (as ! 2)))"
    by (simp add: parseBuildStageName_def Let_def)
  then show ?thesis
    by (simp only: validStageName_pattern)
qed

text \<open>
  An accepted and a rejected name.
\<close>

theorem parseBuildStageName_lowercased_witness:
  "parseBuildStageName [''ubuntu'', ''as'', ''build-1.0''] = Inr ''build-1.0'' \<and>
   parseBuildStageName [''ubuntu'', ''as'', ''1build''] = Inl (InvalidStageName ''1build'')"
proof -
  have a: "EqualFold ''as'' ''as''" by code_simp
  have b: "stage_name_pattern (ToLower ''build-1.0'')" by code_simp
  have c: "\<not> stage_name_pattern (ToLower ''1build'')" by code_simp
  have d: "ToLower ''build-1.0'' = ''build-1.0''" by code_simp
  have e: "stage_name_pattern ''build-1.0''" by code_simp
  show ?thesis
    using parseBuildStageName_lowercased [of "[''ubuntu'', ''as'', ''build-1.0'']"]
      parseBuildStageName_lowercased [of "[''ubuntu'', ''as'', ''1build'']"]
    by (simp add: a b c d e)
qed

text \<open>
  Claim C7 as written (accepted if and only if the declared name matches) fails:
  \<^verbatim>\<open>Build\<close> does not match the pattern and is accepted, as \<^verbatim>\<open>build\<close>.
\<close>

theorem stage_name_upper_case_accepted:
  "\<not> stage_name_pattern ''Build'' \<and>
   parseBuildStageName [''ubuntu'', ''AS'', ''Build''] = Inr ''build''"
  by code_simp

section \<open>HEALTHCHECK durations and retries\<close>

lemma parseOptInterval_given:
  assumes "Value f \<noteq> []" and "ParseDuration ext (Value f) = Inr dur"
  shows "parseOptInterval ext f =
    (if dur = 0 then Inr 0
     else if dur < 1000000 then Inl (IntervalTooShort (flagName f))
     else Inr dur)"
  using assms by (simp add: parseOptInterval_def minimumDuration_def)

lemma parseOptInterval_too_short:
  assumes "Value f \<noteq> []" and "ParseDuration ext (Value f) = Inr dur" and "dur \<noteq> 0" and "dur < 1000000"
  shows "parseOptInterval ext f = Inl (IntervalTooShort (flagName f))"
  using assms by (simp add: parseOptInterval_given)

lemma parseOptInterval_accepts:
  assumes "Value f = [] \<or>
    (\<exists>dur. ParseDuration ext (Value f) = Inr dur \<and> (dur = 0 \<or> 1000000 \<le> dur))"
  shows "\<exists>r. parseOptInterval ext f = Inr r"
  using assms by (auto simp: parseOptInterval_def minimumDuration_def Let_def)

lemma parseHealthcheck_CMD:
  assumes "args req \<noteq> []" and "ToUpper (args req ! 0) = ''CMD''"
    and "flags req parseHealthcheck_flags = Inr fl"
    and "parseHealthcheck ext req = Inr c"
  shows "(\<forall>n \<in> set interval_flag_names.
            parseOptInterval ext (flag fl n) = Inr (health_duration (Health c) n)) \<and>
         (Value (flag fl ''retries'') \<noteq> [] \<longrightarrow>
            (\<exists>r. ParseInt10 ''ParseInt'' (Value (flag fl ''retries'')) 32 = Inr r \<and> 0 \<le> r))"
  using assms
  by (auto simp: parseHealthcheck_def Let_def interval_flag_names_def health_duration_def
      withNameAndCode.extend_def split: if_splits sum.splits)

lemma parseHealthcheck_accepts:
  assumes "args req \<noteq> []" and "ToUpper (args req ! 0) = ''CMD''"
    and "flags req parseHealthcheck_flags = Inr fl"
    and cmd: "handleJSONArgs ext (tl (args req)) (attributes req) \<noteq> []"
    and durations: "\<forall>n \<in> set interval_flag_names. Value (flag fl n) = [] \<or>
       (\<exists>dur. ParseDuration ext (Value (flag fl n)) = Inr dur \<and> (dur = 0 \<or> 1000000 \<le> dur))"
    and retries: "Value (flag fl ''retries'') = [] \<or>
       (\<exists>r. ParseInt10 ''ParseInt'' (Value (flag fl ''retries'')) 32 = Inr r \<and> 0 \<le> r)"
  shows "\<exists>c. parseHealthcheck ext req = Inr c"
proof -
  from durations obtain r1 where r1: "parseOptInterval ext (flag fl ''interval'') = Inr r1"
    using parseOptInterval_accepts [of "flag fl ''interval''" ext]
    by (auto simp: interval_flag_names_def)
  from durations obtain r2 where r2: "parseOptInterval ext (flag fl ''timeout'') = Inr r2"
    using parseOptInterval_accepts [of "flag fl ''timeout''" ext]
    by (auto simp: interval_flag_names_def)
  from durations obtain r3 where r3: "parseOptInterval ext (flag fl ''start-period'') = Inr r3"
    using parseOptInterval_accepts [of "flag fl ''start-period''" ext]
    by (auto simp: interval_flag_names_def)
  from durations obtain r4 where r4: "parseOptInterval ext (flag fl ''start-interval'') = Inr r4"
    using parseOptInterval_accepts [of "flag fl ''start-interval''" ext]
    by (auto simp: interval_flag_names_def)
  from assms(1,2,3) cmd retries r1 r2 r3 r4 show ?thesis
    by (auto simp: parseHealthcheck_def Let_def)
qed

text \<open>
  Claim C8, as the code has it. For \<^verbatim>\<open>HEALTHCHECK CMD\<close> whose flags parse: each of
  \<^verbatim>\<open>--interval\<close>, \<^verbatim>\<open>--timeout\<close>, \<^verbatim>\<open>--start-period\<close> and \<^verbatim>\<open>--start-interval\<close>, when
  given, is parsed as a duration. A value that does not parse makes the instruction
  rejected, and so does a value other than zero below one millisecond. A value of zero
  does not: whenever the instruction is accepted, the field of the health check holds
  the duration that was given, 0 for a given zero as for a flag that was not given; and
  the instruction is accepted whenever it has a command, every duration is not given,
  zero or at least one millisecond, and the retries are not given or not negative. A
  \<^verbatim>\<open>--retries\<close> value that parses to a negative integer makes the instruction
  rejected.

  The comment above \<^verbatim>\<open>parseOptInterval\<close> reads as if every given value below the
  minimum were an error. The code states the intent for zero: it has a branch of its own
  for a duration of zero, before the comparison with the minimum, which returns the 0
  that the same comment names as the result for an empty flag, the value of a health
  check field that is not set. A comparison written by mistake would need no such
  branch.
\<close>

theorem parseHealthcheck_durations:
  assumes "args req \<noteq> []" and "ToUpper (args req ! 0) = ''CMD''"
    and "flags req parseHealthcheck_flags = Inr fl"
  shows "(\<forall>n \<in> set interval_flag_names. \<forall>dur.
            Value (flag fl n) \<noteq> [] \<and> ParseDuration ext (Value (flag fl n)) = Inr dur \<longrightarrow>
            parseOptInterval ext (flag fl n) =
              (if dur = 0 then Inr 0
               else if dur < 1000000 then Inl (IntervalTooShort (flagName (flag fl n)))
               else Inr dur) \<and>
            (dur \<noteq> 0 \<and> dur < 1000000 \<longrightarrow> (\<exists>e. parseHealthcheck ext req = Inl e)) \<and>
            (\<forall>c. parseHealthcheck ext req = Inr c \<longrightarrow> health_duration (Health c) n = dur)) \<and>
         (\<forall>n \<in> set interval_flag_names. \<forall>err.
            Value (flag fl n) \<noteq> [] \<and> ParseDuration ext (Value (flag fl n)) = Inl err \<longrightarrow>
            (\<exists>e. parseHealthcheck ext req = Inl e)) \<and>
         (\<forall>n \<in> set interval_flag_names. \<forall>c.
            Value (flag fl n) = [] \<and> parseHealthcheck ext req = Inr c \<longrightarrow>
            health_duration (Health c) n = 0) \<and>
         (\<forall>r. Value (flag fl ''retries'') \<noteq> [] \<and>
              ParseInt10 ''ParseInt'' (Value (flag fl ''retries'')) 32 = Inr r \<and> r < 0 \<longrightarrow>
              (\<exists>e. parseHealthcheck ext req = Inl e)) \<and>
         (handleJSONArgs ext (tl (args req)) (attributes req) \<noteq> [] \<and>
          (\<forall>n \<in> set interval_flag_names. Value (flag fl n) = [] \<or>
             (\<exists>dur. ParseDuration ext (Value (flag fl n)) = Inr dur \<and>
                (dur = 0 \<or> 1000000 \<le> dur))) \<and>
          (Value (flag fl ''retries'') = [] \<or>
             (\<exists>r. ParseInt10 ''ParseInt'' (Value (flag fl ''retries'')) 32 = Inr r \<and> 0 \<le> r)) \<longrightarrow>
          (\<exists>c. parseHealthcheck ext req = Inr c))"
proof (intro conjI ballI allI impI)
  fix n dur
  assume n: "n \<in> set interval_flag_names"
    and v: "Value (flag fl n) \<noteq> [] \<and> ParseDuration ext (Value (flag fl n)) = Inr dur"
  from v show g: "parseOptInterval ext (flag fl n) =
      (if dur = 0 then Inr 0
       else if dur < 1000000 then Inl (IntervalTooShort (flagName (flag fl n)))
       else Inr dur)"
    by (simp add: parseOptInterval_given)
  {
    assume short: "dur \<noteq> 0 \<and> dur < 1000000"
    show "\<exists>e. parseHealthcheck ext req = Inl e"
    proof (cases "parseHealthcheck ext req")
      case (Inl e)
      then show ?thesis by blast
    next
      case (Inr c)
      from parseHealthcheck_CMD [OF assms Inr] n
      have "parseOptInterval ext (flag fl n) = Inr (health_duration (Health c) n)" by blast
      with g short show ?thesis by simp
    qed
  }
  {
    fix c
    assume c: "parseHealthcheck ext req = Inr c"
    from parseHealthcheck_CMD [OF assms c] n
    have "parseOptInterval ext (flag fl n) = Inr (health_duration (Health c) n)" by blast
    with g show "health_duration (Health c) n = dur"
      by (auto split: if_splits)
  }
next
  fix n err
  assume n: "n \<in> set interval_flag_names"
    and v: "Value (flag fl n) \<noteq> [] \<and> ParseDuration ext (Value (flag fl n)) = Inl err"
  then have bad: "parseOptInterval ext (flag fl n) = Inl err"
    by (simp add: parseOptInterval_def)
  show "\<exists>e. parseHealthcheck ext req = Inl e"
  proof (cases "parseHealthcheck ext req")
    case (Inl e)
    then show ?thesis by blast
  next
    case (Inr c)
    from parseHealthcheck_CMD [OF assms Inr] n
    have "parseOptInterval ext (flag fl n) = Inr (health_duration (Health c) n)" by blast
    with bad show ?thesis by simp
  qed
next
  fix n c
  assume n: "n \<in> set interval_flag_names"
    and v: "Value (flag fl n) = [] \<and> parseHealthcheck ext req = Inr c"
  from parseHealthcheck_CMD [OF assms] v n
  have "parseOptInterval ext (flag fl n) = Inr (health_duration (Health c) n)" by blast
  with v show "health_duration (Health c) n = 0"
    by (simp add: parseOptInterval_def)
next
  fix r
  assume r: "Value (flag fl ''retries'') \<noteq> [] \<and>
      ParseInt10 ''ParseInt'' (Value (flag fl ''retries'')) 32 = Inr r \<and> r < 0"
  show "\<exists>e. parseHealthcheck ext req = Inl e"
  proof (cases "parseHealthcheck ext req")
    case (Inl e)
    then show ?thesis by blast
  next
    case (Inr c)
    from parseHealthcheck_CMD [OF assms Inr] r show ?thesis by auto
  qed
next
  assume ok: "handleJSONArgs ext (tl (args req)) (attributes req) \<noteq> [] \<and>
          (\<forall>n \<in> set interval_flag_names. Value (flag fl n) = [] \<or>
             (\<exists>dur. ParseDuration ext (Value (flag fl n)) = Inr dur \<and>
                (dur = 0 \<or> 1000000 \<le> dur))) \<and>
          (Value (flag fl ''retries'') = [] \<or>
             (\<exists>r. ParseInt10 ''ParseInt'' (Value (flag fl ''retries'')) 32 = Inr r \<and> 0 \<le> r))"
  then show "\<exists>c. parseHealthcheck ext req = Inr c"
    using parseHealthcheck_accepts [OF assms, of ext] by blast
qed

text \<open>
  \<^verbatim>\<open>--timeout=500us\<close> and \<^verbatim>\<open>--retries=-1\<close> are rejected;
  \<^verbatim>\<open>--interval=30s --timeout=0s\<close> is accepted, with an interval of thirty seconds and a
  timeout of 0.
\<close>

theorem parseHealthcheck_durations_witness:
  "(\<exists>e. parseHealthcheck sample_externals (healthcheck_request [(''timeout'', ''500us'')]) = Inl e) \<and>
   (\<exists>e. parseHealthcheck sample_externals (healthcheck_request [(''retries'', ''-1'')]) = Inl e) \<and>
   (\<exists>c. parseHealthcheck sample_externals
           (healthcheck_request [(''interval'', ''30s''), (''timeout'', ''0s'')]) = Inr c \<and>
        Interval (Health c) = 30000000000 \<and> Timeout (Health c) = 0)"
proof -
  define fl :: "(string \<times> string) list \<Rightarrow> ParsedFlags" where
    "fl given = \<lparr>flag = (\<lambda>n. case find (\<lambda>f. flagName f = n) parseHealthcheck_flags of
                        None \<Rightarrow> AddString n []
                      | Some f \<Rightarrow> (case map_of given n of None \<Rightarrow> f | Some v \<Rightarrow> f\<lparr>Value := v\<rparr>)),
          used = (\<lambda>n. map_of given n \<noteq> None)\<rparr>" for given
  have a: "args (healthcheck_request g) \<noteq> []" for g
    by (simp add: healthcheck_request_def sample_request_def)
  have u: "ToUpper (args (healthcheck_request g) ! 0) = ''CMD''" for g
    unfolding healthcheck_request_def sample_request_def by code_simp
  have f: "flags (healthcheck_request g) parseHealthcheck_flags = Inr (fl g)" for g
    by (simp add: healthcheck_request_def sample_request_def given_flags_def fl_def)
  have t: "''timeout'' \<in> set interval_flag_names" "''interval'' \<in> set interval_flag_names"
    by (simp_all add: interval_flag_names_def)
  have v1: "Value (flag (fl [(''timeout'', ''500us'')]) ''timeout'') = ''500us''"
    by (simp add: fl_def parseHealthcheck_flags_def AddString_def)
  have v2: "Value (flag (fl [(''retries'', ''-1'')]) ''retries'') = ''-1''"
    by (simp add: fl_def parseHealthcheck_flags_def AddString_def)
  have v3: "Value (flag (fl [(''interval'', ''30s''), (''timeout'', ''0s'')]) n) =
      (if n = ''interval'' then ''30s'' else if n = ''timeout'' then ''0s'' else [])" for n
    by (simp add: fl_def parseHealthcheck_flags_def AddString_def)
  have p: "ParseDuration sample_externals ''500us'' = Inr 500000"
    "ParseDuration sample_externals ''30s'' = Inr 30000000000"
    "ParseDuration sample_externals ''0s'' = Inr 0"
    by (simp_all add: sample_externals_def sample_ParseDuration_def)
  have i: "ParseInt10 ''ParseInt'' ''-1'' 32 = Inr (- 1)"
    by (simp add: ParseInt10_def is_digit_def digit_val_def)
  have h: "handleJSONArgs sample_externals (tl (args (healthcheck_request g)))
      (attributes (healthcheck_request g)) \<noteq> []" for g
    by (simp add: sample_externals_def healthcheck_request_def sample_request_def)
  note th = parseHealthcheck_durations [OF a u f, of _ sample_externals]
  from th [of "[(''timeout'', ''500us'')]"] t v1 p
  have 1: "\<exists>e. parseHealthcheck sample_externals (healthcheck_request [(''timeout'', ''500us'')]) = Inl e"
    by auto
  from th [of "[(''retries'', ''-1'')]"] v2 i
  have 2: "\<exists>e. parseHealthcheck sample_externals (healthcheck_request [(''retries'', ''-1'')]) = Inl e"
    by auto
  let ?g = "[(''interval'', ''30s''), (''timeout'', ''0s'')]"
  have ok: "\<forall>n \<in> set interval_flag_names. Value (flag (fl ?g) n) = [] \<or>
             (\<exists>dur. ParseDuration sample_externals (Value (flag (fl ?g) n)) = Inr dur \<and>
                (dur = 0 \<or> 1000000 \<le> dur))"
    using p by (simp add: v3 interval_flag_names_def)
  have rt: "Value (flag (fl ?g) ''retries'') = []"
    by (simp add: v3)
  from th [of ?g] h [of ?g] ok rt
  obtain c where c: "parseHealthcheck sample_externals (healthcheck_request ?g) = Inr c"
    by blast
  from th [of ?g] t(2) c p(2) have "health_duration (Health c) ''interval'' = 30000000000"
    by (auto simp: v3)
  moreover from th [of ?g] t(1) c p(3) have "health_duration (Health c) ''timeout'' = 0"
    by (auto simp: v3)
  ultimately have 3: "\<exists>c. parseHealthcheck sample_externals (healthcheck_request ?g) = Inr c \<and>
        Interval (Health c) = 30000000000 \<and> Timeout (Health c) = 0"
    using c by (auto simp: health_duration_def)
  from 1 2 3 show ?thesis by blast
qed

text \<open>
  Claim C8 as written (every given value below one millisecond is rejected) fails on
  zero: \<^verbatim>\<open>--interval=0s\<close> is accepted, with interval 0.
\<close>

theorem parseHealthcheck_zero_interval_accepted:
  "ParseDuration sample_externals ''0s'' = Inr 0 \<and>
   parseHealthcheck sample_externals (healthcheck_request [(''interval'', ''0s'')]) =
     Inr \<lparr>code = ''HEALTHCHECK CMD curl -f http://localhost/'', cmdName = ''HEALTHCHECK'',
          cmdLocation = [((1, 0), (1, 41))],
          Health = \<lparr>Test = [''CMD-SHELL'', ''curl -f http://localhost/''], Interval = 0,
                    Timeout = 0, StartPeriod = 0, StartInterval = 0, Retries = 0\<rparr>\<rparr>"
proof
  show "ParseDuration sample_externals ''0s'' = Inr 0"
    by (simp add: sample_externals_def sample_ParseDuration_def)
  have u: "ToUpper ''CMD'' = ''CMD''" by code_simp
  show "parseHealthcheck sample_externals (healthcheck_request [(''interval'', ''0s'')]) =
     Inr \<lparr>code = ''HEALTHCHECK CMD curl -f http://localhost/'', cmdName = ''HEALTHCHECK'',
          cmdLocation = [((1, 0), (1, 41))],
          Health = \<lparr>Test = [''CMD-SHELL'', ''curl -f http://localhost/''], Interval = 0,
                    Timeout = 0, StartPeriod = 0, StartInterval = 0, Retries = 0\<rparr>\<rparr>"
    by (simp add: parseHealthcheck_def healthcheck_request_def sample_request_def u
        given_flags_def parseHealthcheck_flags_def AddString_def parseOptInterval_def
        sample_externals_def sample_ParseDuration_def newWithNameAndCode_def
        withNameAndCode.extend_def)
qed

section \<open>EXPOSE\<close>

text \<open>
  Claim C10. The ports of a parsed \<^verbatim>\<open>EXPOSE\<close> instruction are its arguments sorted in
  the lexicographic order of strings: the same ports as many times each, in ascending
  order, and they are in the order they were written in only when that order is sorted
  already.
\<close>

theorem parseExpose_sorted:
  assumes "parseExpose req = Inr c"
  shows "sorted (Ports c) \<and> mset (Ports c) = mset (args req) \<and>
         (Ports c = args req \<longleftrightarrow> sorted (args req))"
proof -
  from assms have p: "Ports c = sort (args req)"
    by (auto simp: parseExpose_def slices_Sort_def Let_def withNameAndCode.extend_def
        split: if_splits sum.splits)
  show ?thesis unfolding p by (auto simp: sorted_sort_id) (metis sorted_sort)
qed

text \<open>
  \<^verbatim>\<open>EXPOSE 80/tcp 123/udp\<close> stores \<^verbatim>\<open>123/udp\<close> first.
\<close>

theorem parseExpose_sorted_witness:
  "parseExpose (sample_request ''EXPOSE'' [] [''80/tcp'', ''123/udp''] ''EXPOSE 80/tcp 123/udp'') =
     Inr \<lparr>code = ''EXPOSE 80/tcp 123/udp'', cmdName = ''EXPOSE'',
          cmdLocation = [((1, 0), (1, 21))], Ports = [''123/udp'', ''80/tcp'']\<rparr> \<and>
   sorted [''123/udp'', ''80/tcp''] \<and>
   mset [''123/udp'', ''80/tcp''] = mset [''80/tcp'', ''123/udp''] \<and>
   \<not> sorted [''80/tcp'', ''123/udp'']"
proof -
  have s: "sort [''80/tcp'', ''123/udp''] = [''123/udp'', ''80/tcp'']"
    by code_simp
  have e: "parseExpose (sample_request ''EXPOSE'' [] [''80/tcp'', ''123/udp''] ''EXPOSE 80/tcp 123/udp'') =
     Inr \<lparr>code = ''EXPOSE 80/tcp 123/udp'', cmdName = ''EXPOSE'',
          cmdLocation = [((1, 0), (1, 21))], Ports = [''123/udp'', ''80/tcp'']\<rparr>"
    by (simp add: parseExpose_def sample_request_def given_flags_def slices_Sort_def s
        newWithNameAndCode_def withNameAndCode.extend_def del: sort_key_simps)
  from parseExpose_sorted [OF e] show ?thesis
    using e by (simp add: sample_request_def)
qed

end
